theory Spec2Isabelle
  imports Complex_Main
begin

section \<open>Smart parking pricing: the notebook's pricing functions\<close>

text \<open>
  The development embeds the pricing cells of \<^verbatim>\<open>smart_parking_pricing_system.ipynb\<close>:
  \<^verbatim>\<open>linear_pricing_model\<close>, \<^verbatim>\<open>demand_based_price\<close>, \<^verbatim>\<open>haversine\<close>,
  \<^verbatim>\<open>competitive_price\<close> and the column assignments that call them.

  Numbers. A Python float is an IEEE binary64 value. A finite one is modelled by the
  real number it denotes, and every \<open>+\<close>, \<open>-\<close>, \<open>*\<close> and \<open>/\<close> of the pricing code rounds
  its exact result to the nearest double, ties to the even mantissa (\<open>to_double\<close>). A
  float literal such as \<open>0.4\<close> is the double nearest to it. The prices and the features
  of a row may also be NaN, which every operation propagates and every comparison
  answers with False. Infinities and overflow (beyond about \<open>1.8e308\<close>) are outside the
  model. The integer columns \<open>Occupancy\<close> and \<open>Capacity\<close> are Python ints, and true
  division by zero raises, as Python's \<open>/\<close> does.

  The one place that keeps exact reals is the haversine distance: numpy's \<open>sin\<close>, \<open>cos\<close>,
  \<open>arcsin\<close> and \<open>sqrt\<close> have no bit-exact specification, so they are the mathematical
  functions, and coordinates are real numbers.
\<close>

subsection \<open>Rounding to a double\<close>

datatype error = ZeroDivisionError | KeyError

text \<open>Rounding to the nearest integer, a tie going to the even neighbour.\<close>

definition round_half_even :: "real \<Rightarrow> int" where
  "round_half_even y =
     (let f = \<lfloor>y\<rfloor>; d = y - of_int f
      in if d < 1 / 2 then f
         else if 1 / 2 < d then f + 1
         else if even f then f else f + 1)"

text \<open>
  The binade of \<open>x\<close> is the exponent \<open>e\<close> with \<open>2^e \<le> |x| < 2^(e+1)\<close>, not below the
  smallest normal exponent \<open>-1022\<close> (below it the doubles are subnormal and equally
  spaced). A double of binade \<open>e\<close> is a multiple of \<open>2^(e-52)\<close>.
\<close>

function binade_up :: "real \<Rightarrow> int \<Rightarrow> int" where
  "binade_up x e = (if x < 2 then e else binade_up (x / 2) (e + 1))"
  by pat_completeness auto
termination
proof (relation "measure (\<lambda>(x, e). nat \<lceil>x\<rceil>)")
  show "wf (measure (\<lambda>(x, e). nat \<lceil>x\<rceil>))" by simp
next
  fix x :: real and e :: int
  assume "\<not> x < 2"
  then have "x / 2 \<le> x - 1" by simp
  then have "\<lceil>x / 2\<rceil> \<le> \<lceil>x - 1\<rceil>" by (rule ceiling_mono)
  moreover have "0 < \<lceil>x\<rceil>" using \<open>\<not> x < 2\<close> by (simp add: less_ceiling_iff)
  ultimately show "((x / 2, e + 1), (x, e)) \<in> measure (\<lambda>(x, e). nat \<lceil>x\<rceil>)" by simp
qed

function binade_down :: "real \<Rightarrow> int \<Rightarrow> int" where
  "binade_down x e = (if 1 \<le> x \<or> e \<le> - 1022 then e else binade_down (2 * x) (e - 1))"
  by pat_completeness auto
termination
  by (relation "measure (\<lambda>(x, e). nat (e + 1022))") auto

declare binade_up.simps [simp del] binade_down.simps [simp del]

definition binade :: "real \<Rightarrow> int" where
  "binade x = (if 1 \<le> \<bar>x\<bar> then binade_up \<bar>x\<bar> 0 else binade_down \<bar>x\<bar> 0)"

definition ulp :: "real \<Rightarrow> real" where
  "ulp x = 2 powi (binade x - 52)"

definition to_double :: "real \<Rightarrow> real" where
  "to_double x = of_int (round_half_even (x / ulp x)) * ulp x"

subsection \<open>Python floats and their operations\<close>

datatype pyfloat = NaN | Fin real

fun fadd :: "pyfloat \<Rightarrow> pyfloat \<Rightarrow> pyfloat" where
  "fadd (Fin a) (Fin b) = Fin (to_double (a + b))"
| "fadd _ _ = NaN"

fun fsub :: "pyfloat \<Rightarrow> pyfloat \<Rightarrow> pyfloat" where
  "fsub (Fin a) (Fin b) = Fin (to_double (a - b))"
| "fsub _ _ = NaN"

fun fmul :: "pyfloat \<Rightarrow> pyfloat \<Rightarrow> pyfloat" where
  "fmul (Fin a) (Fin b) = Fin (to_double (a * b))"
| "fmul _ _ = NaN"

text \<open>Division by a literal or a count that is not zero.\<close>

fun fdiv :: "pyfloat \<Rightarrow> pyfloat \<Rightarrow> pyfloat" where
  "fdiv (Fin a) (Fin b) = Fin (to_double (a / b))"
| "fdiv _ _ = NaN"

text \<open>\<^verbatim>\<open>a < b\<close>; \<^verbatim>\<open>a > b\<close> is \<open>lt b a\<close>.\<close>

fun lt :: "pyfloat \<Rightarrow> pyfloat \<Rightarrow> bool" where
  "lt (Fin a) (Fin b) = (a < b)"
| "lt _ _ = False"

text \<open>
  The builtins \<^verbatim>\<open>max(a, b)\<close> and \<^verbatim>\<open>min(a, b)\<close> keep the first argument unless the second is
  strictly greater (smaller); with a NaN first argument they return the NaN.
\<close>

definition py_max :: "pyfloat \<Rightarrow> pyfloat \<Rightarrow> pyfloat" where
  "py_max a b = (if lt a b then b else a)"

definition py_min :: "pyfloat \<Rightarrow> pyfloat \<Rightarrow> pyfloat" where
  "py_min a b = (if lt b a then b else a)"

text \<open>\<^verbatim>\<open>a / b\<close> on numbers: true division, raising on a zero divisor.\<close>

definition truediv :: "real \<Rightarrow> real \<Rightarrow> error + real" where
  "truediv a b = (if b = 0 then Inl ZeroDivisionError else Inr (to_double (a / b)))"

text \<open>
  \<^verbatim>\<open>round(x, ndigits)\<close> of a float: the exact value of \<open>x\<close> is rounded to \<open>ndigits\<close>
  decimals, a tie going to the even digit, and the result is the double nearest to that
  decimal. \<^verbatim>\<open>round(nan, ndigits)\<close> is NaN.
\<close>

definition py_round :: "real \<Rightarrow> nat \<Rightarrow> real" where
  "py_round x ndigits =
     to_double (of_int (round_half_even (x * 10 ^ ndigits)) / 10 ^ ndigits)"

fun py_round_float :: "pyfloat \<Rightarrow> nat \<Rightarrow> pyfloat" where
  "py_round_float NaN ndigits = NaN"
| "py_round_float (Fin x) ndigits = Fin (py_round x ndigits)"

text \<open>
  \<^verbatim>\<open>np.mean\<close> of a list of floats: numpy's pairwise summation of the float64 array,
  divided by the number of elements. Fewer than 8 elements are added from left to right.
  Up to 128 elements are added into 8 accumulators, element \<open>i\<close> into accumulator
  \<open>i mod 8\<close>, block by block; the accumulators are combined as
  \<open>((r0 + r1) + (r2 + r3)) + ((r4 + r5) + (r6 + r7))\<close> and the elements after the last
  full block are added one by one. A longer array is split at half its length, rounded
  down to a multiple of 8, and the sums of the two parts are added. The mean of the empty
  list is NaN.
\<close>

fun seq_sum :: "pyfloat \<Rightarrow> pyfloat list \<Rightarrow> pyfloat" where
  "seq_sum res [] = res"
| "seq_sum res (a # as) = seq_sum (fadd res a) as"

function add_blocks :: "pyfloat list \<Rightarrow> pyfloat list \<Rightarrow> pyfloat list" where
  "add_blocks r as =
     (if length as < 8 then r
      else add_blocks (map (\<lambda>(x, y). fadd x y) (zip r (take 8 as))) (drop 8 as))"
  by pat_completeness auto
termination
  by (relation "measure (\<lambda>(r, as). length as)") auto

function pairwise_sum :: "pyfloat list \<Rightarrow> pyfloat" where
  "pairwise_sum a =
     (let n = length a in
      if n < 8 then seq_sum (Fin 0) a
      else if n \<le> 128 then
        (let m = n - n mod 8;
             r = add_blocks (take 8 a) (take (m - 8) (drop 8 a));
             res = fadd (fadd (fadd (r ! 0) (r ! 1)) (fadd (r ! 2) (r ! 3)))
                        (fadd (fadd (r ! 4) (r ! 5)) (fadd (r ! 6) (r ! 7)))
         in seq_sum res (drop m a))
      else
        (let n2 = n div 2 - (n div 2) mod 8
         in fadd (pairwise_sum (take n2 a)) (pairwise_sum (drop n2 a))))"
  by pat_completeness auto
termination
proof (relation "measure length")
  show "wf (measure length)" by simp
next
  fix a :: "pyfloat list" and x xa
  assume "x = length a" and "\<not> x < 8" and "\<not> x \<le> 128" and "xa = x div 2 - x div 2 mod 8"
  then show "(take xa a, a) \<in> measure length" by simp
next
  fix a :: "pyfloat list" and x xa
  assume h: "x = length a" "\<not> x < 8" "\<not> x \<le> 128" "xa = x div 2 - x div 2 mod 8"
  then have "x div 2 mod 8 < 8" and "64 \<le> x div 2" by simp_all
  with h have "0 < xa" by simp
  moreover from h have "0 < length a" by linarith
  ultimately have "length a - xa < length a" by linarith
  then show "(drop xa a, a) \<in> measure length" by simp
qed

declare add_blocks.simps [simp del] pairwise_sum.simps [simp del]

definition np_mean :: "pyfloat list \<Rightarrow> pyfloat" where
  "np_mean xs = (if xs = [] then NaN else fdiv (pairwise_sum xs) (Fin (of_nat (length xs))))"

text \<open>\<^verbatim>\<open>np.radians\<close>: degrees to radians.\<close>

definition np_radians :: "real \<Rightarrow> real" where
  "np_radians d = d * pi / 180"

subsection \<open>The data frame\<close>

text \<open>
  The frame \<^verbatim>\<open>df\<close> is the list of its rows; its row labels are the default
  \<open>0 .. len(df) - 1\<close>, so a label is a position. A \<open>reading\<close> holds the columns of
  the data set that the cells read; a \<open>row\<close> adds the columns the preprocessing and the
  pricing cells assign. \<open>CompetitivePrice\<close> is \<open>None\<close> until that column is assigned.
\<close>

record reading =
  Occupancy :: int
  Capacity :: int
  Latitude :: real
  Longitude :: real
  VehicleType :: string
  TrafficConditionNearby :: string
  IsSpecialDay :: pyfloat

record row = reading +
  NormalizedOccupancyRate :: pyfloat
  NormalizedQueueLength :: pyfloat
  TrafficConditionEncoded :: pyfloat
  VehicleTypeEncoded :: pyfloat
  DemandPrice :: pyfloat
  CompetitivePrice :: "pyfloat option"

type_synonym dataframe = "row list"

subsection \<open>Preprocessing: the category encodings\<close>

text \<open>
  \<^verbatim>\<open>
  df['VehicleTypeEncoded'] = df['VehicleType'].map({'car': 1.0, 'bike': 0.5, 'truck': 1.5})
  df['TrafficConditionEncoded'] = df['TrafficConditionNearby'].map({'low': 0, 'medium': 1, 'high': 2})
  \<close>
  \<^verbatim>\<open>Series.map\<close> with a dict looks each value up; a value that is not a key becomes NaN.
  Nothing is raised and no row is dropped.
\<close>

definition vehicle_type_dict :: "(string \<times> real) list" where
  "vehicle_type_dict = [(''car'', 1), (''bike'', 5 / 10), (''truck'', 15 / 10)]"

definition traffic_condition_dict :: "(string \<times> real) list" where
  "traffic_condition_dict = [(''low'', 0), (''medium'', 1), (''high'', 2)]"

definition series_map :: "(string \<times> real) list \<Rightarrow> string \<Rightarrow> pyfloat" where
  "series_map d v = (case map_of d v of None \<Rightarrow> NaN | Some x \<Rightarrow> Fin x)"

definition vehicle_type_encoded :: "string \<Rightarrow> pyfloat" where
  "vehicle_type_encoded v = series_map vehicle_type_dict v"

definition traffic_condition_encoded :: "string \<Rightarrow> pyfloat" where
  "traffic_condition_encoded t = series_map traffic_condition_dict t"

definition assign_encodings :: "dataframe \<Rightarrow> dataframe" where
  "assign_encodings df =
     map (\<lambda>r. r\<lparr>VehicleTypeEncoded := vehicle_type_encoded (VehicleType r),
                TrafficConditionEncoded := traffic_condition_encoded (TrafficConditionNearby r)\<rparr>)
       df"

subsection \<open>Model 1: linear pricing\<close>

text \<open>
  \<^verbatim>\<open>
  def linear_pricing_model(occupancy, capacity, base_price=10.0, alpha=5.0):
      occupancy_rate = occupancy / capacity
      return round(base_price + alpha * occupancy_rate, 2)
  \<close>
\<close>

definition linear_pricing_model :: "real \<Rightarrow> real \<Rightarrow> real \<Rightarrow> real \<Rightarrow> error + real" where
  "linear_pricing_model occupancy capacity base_price alpha =
     (case truediv occupancy capacity of
        Inl e \<Rightarrow> Inl e
      | Inr occupancy_rate \<Rightarrow>
          Inr (py_round (to_double (base_price + to_double (alpha * occupancy_rate))) 2))"

text \<open>The call with the default arguments \<open>base_price=10.0\<close>, \<open>alpha=5.0\<close>.\<close>

definition linear_pricing_model_default :: "real \<Rightarrow> real \<Rightarrow> error + real" where
  "linear_pricing_model_default occupancy capacity =
     linear_pricing_model occupancy capacity 10 5"

text \<open>
  \<^verbatim>\<open>df['LinearPrice'] = df.apply(lambda row: linear_pricing_model(row['Occupancy'],
  row['Capacity']), axis=1)\<close>: the rows in order; the first exception ends the pass and
  no column is assigned.
\<close>

fun linear_price_column :: "'a reading_scheme list \<Rightarrow> error + real list" where
  "linear_price_column [] = Inr []"
| "linear_price_column (r # rs) =
     (case linear_pricing_model_default (of_int (Occupancy r)) (of_int (Capacity r)) of
        Inl e \<Rightarrow> Inl e
      | Inr p \<Rightarrow> (case linear_price_column rs of Inl e \<Rightarrow> Inl e | Inr ps \<Rightarrow> Inr (p # ps)))"

subsection \<open>Model 2: demand-based pricing\<close>

text \<open>
  \<^verbatim>\<open>
  def demand_based_price(row, base_price=10.0, lambd=0.5):
      alpha, beta, gamma, delta, epsilon = 0.4, 0.3, 0.1, 0.1, 0.1
      demand = (alpha * row['NormalizedOccupancyRate'] + beta * row['NormalizedQueueLength'] +
                gamma * row['TrafficConditionEncoded'] / 2 +
                delta * row['VehicleTypeEncoded'] / 1.5 + epsilon * row['IsSpecialDay'])
      demand = min(max(demand, 0), 1)
      return round(min(max(base_price * (1 + lambd * demand), 5), 20), 2)
  \<close>
  \<open>weighted_sum\<close> is the value of \<^verbatim>\<open>demand\<close> after its first assignment and
  \<open>demand_score\<close> after its second. The sum is taken from left to right, and
  \<^verbatim>\<open>gamma * t / 2\<close> is \<^verbatim>\<open>(gamma * t) / 2\<close>.
\<close>

definition weighted_sum :: "row \<Rightarrow> pyfloat" where
  "weighted_sum r =
     (let alpha = Fin (to_double (4 / 10)); beta = Fin (to_double (3 / 10));
          gamma = Fin (to_double (1 / 10)); delta = Fin (to_double (1 / 10));
          epsilon = Fin (to_double (1 / 10))
      in fadd (fadd (fadd (fadd (fmul alpha (NormalizedOccupancyRate r))
                                (fmul beta (NormalizedQueueLength r)))
                          (fdiv (fmul gamma (TrafficConditionEncoded r)) (Fin 2)))
                    (fdiv (fmul delta (VehicleTypeEncoded r)) (Fin (15 / 10))))
              (fmul epsilon (IsSpecialDay r)))"

definition demand_score :: "row \<Rightarrow> pyfloat" where
  "demand_score r = py_min (py_max (weighted_sum r) (Fin 0)) (Fin 1)"

definition demand_based_price :: "row \<Rightarrow> real \<Rightarrow> real \<Rightarrow> pyfloat" where
  "demand_based_price r base_price lambd =
     py_round_float
       (py_min (py_max (fmul (Fin base_price) (fadd (Fin 1) (fmul (Fin lambd) (demand_score r))))
                       (Fin 5))
               (Fin 20))
       2"

definition demand_based_price_default :: "row \<Rightarrow> pyfloat" where
  "demand_based_price_default r = demand_based_price r 10 (5 / 10)"

text \<open>\<^verbatim>\<open>df['DemandPrice'] = df.apply(demand_based_price, axis=1)\<close>.\<close>

definition assign_demand_price :: "dataframe \<Rightarrow> dataframe" where
  "assign_demand_price df = map (\<lambda>r. r\<lparr>DemandPrice := demand_based_price_default r\<rparr>) df"

subsection \<open>Model 3: competitive pricing\<close>

text \<open>
  \<^verbatim>\<open>
  def haversine(lat1, lon1, lat2, lon2):
      R = 6371
      phi1, phi2 = np.radians(lat1), np.radians(lat2)
      dphi = np.radians(lat2 - lat1)
      dlambda = np.radians(lon2 - lon1)
      a = np.sin(dphi / 2)**2 + np.cos(phi1) * np.cos(phi2) * np.sin(dlambda / 2)**2
      return R * 2 * np.arcsin(np.sqrt(a))
  \<close>
\<close>

definition haversine_a :: "real \<Rightarrow> real \<Rightarrow> real \<Rightarrow> real \<Rightarrow> real" where
  "haversine_a lat1 lon1 lat2 lon2 =
     (let phi1 = np_radians lat1; phi2 = np_radians lat2;
          dphi = np_radians (lat2 - lat1);
          dlambda = np_radians (lon2 - lon1)
      in (sin (dphi / 2))\<^sup>2 + cos phi1 * cos phi2 * (sin (dlambda / 2))\<^sup>2)"

definition haversine :: "real \<Rightarrow> real \<Rightarrow> real \<Rightarrow> real \<Rightarrow> real" where
  "haversine lat1 lon1 lat2 lon2 =
     6371 * 2 * arcsin (sqrt (haversine_a lat1 lon1 lat2 lon2))"

text \<open>
  \<^verbatim>\<open>
  def competitive_price(index, df, radius_km=1.0):
      lat1, lon1 = df.loc[index, ['Latitude', 'Longitude']]
      own_price = df.loc[index, 'DemandPrice']
      neighbors = []
      for i, row in df.iterrows():
          if i == index: continue
          dist = haversine(lat1, lon1, row['Latitude'], row['Longitude'])
          if dist <= radius_km:
              neighbors.append((row['DemandPrice'], row['Occupancy'] / row['Capacity']))
      if not neighbors: return own_price
      avg_price = np.mean([p for p, _ in neighbors])
      avg_occ = np.mean([o for _, o in neighbors])
      if avg_occ > 0.9 and avg_price > own_price:
          return min(own_price + 1, 20)
      elif avg_price < own_price:
          return max(own_price - 1, 5)
      return own_price
  \<close>
  The \<^verbatim>\<open>for\<close> loop over \<^verbatim>\<open>df.iterrows()\<close> is \<open>neighbors_loop\<close> over the labelled rows
  \<open>enumerate 0 df\<close>, with the list \<^verbatim>\<open>neighbors\<close> as accumulator. The division raises
  when an in-radius row has capacity 0; \<^verbatim>\<open>df.loc\<close> raises \<open>KeyError\<close> on a label that
  is not in the frame.
\<close>

fun neighbors_loop ::
  "nat \<Rightarrow> real \<Rightarrow> real \<Rightarrow> real \<Rightarrow> (nat \<times> row) list \<Rightarrow> (pyfloat \<times> pyfloat) list
   \<Rightarrow> error + (pyfloat \<times> pyfloat) list" where
  "neighbors_loop index lat1 lon1 radius_km [] neighbors = Inr neighbors"
| "neighbors_loop index lat1 lon1 radius_km ((i, r) # rest) neighbors =
     (if i = index then neighbors_loop index lat1 lon1 radius_km rest neighbors
      else if haversine lat1 lon1 (Latitude r) (Longitude r) \<le> radius_km then
        (case truediv (of_int (Occupancy r)) (of_int (Capacity r)) of
           Inl e \<Rightarrow> Inl e
         | Inr occ \<Rightarrow>
             neighbors_loop index lat1 lon1 radius_km rest
               (neighbors @ [(DemandPrice r, Fin occ)]))
      else neighbors_loop index lat1 lon1 radius_km rest neighbors)"

text \<open>The statements of \<^verbatim>\<open>competitive_price\<close> after the loop.\<close>

definition adjust_price :: "pyfloat \<Rightarrow> (pyfloat \<times> pyfloat) list \<Rightarrow> pyfloat" where
  "adjust_price own_price neighbors =
     (if neighbors = [] then own_price
      else
        let avg_price = np_mean (map fst neighbors);
            avg_occ = np_mean (map snd neighbors)
        in if lt (Fin (to_double (9 / 10))) avg_occ \<and> lt own_price avg_price
           then py_min (fadd own_price (Fin 1)) (Fin 20)
           else if lt avg_price own_price then py_max (fsub own_price (Fin 1)) (Fin 5)
           else own_price)"

definition competitive_price :: "nat \<Rightarrow> dataframe \<Rightarrow> real \<Rightarrow> error + pyfloat" where
  "competitive_price index df radius_km =
     (if index < length df then
        let lat1 = Latitude (df ! index); lon1 = Longitude (df ! index);
            own_price = DemandPrice (df ! index)
        in case neighbors_loop index lat1 lon1 radius_km (enumerate 0 df) [] of
             Inl e \<Rightarrow> Inl e
           | Inr neighbors \<Rightarrow> Inr (adjust_price own_price neighbors)
      else Inl KeyError)"

text \<open>
  \<^verbatim>\<open>df['CompetitivePrice'] = [competitive_price(i, df) for i in range(len(df))]\<close>:
  the list is built first, every call reading the same \<^verbatim>\<open>df\<close>, and the column is
  assigned afterwards.
\<close>

fun competitive_prices :: "nat list \<Rightarrow> dataframe \<Rightarrow> error + pyfloat list" where
  "competitive_prices [] df = Inr []"
| "competitive_prices (i # is) df =
     (case competitive_price i df 1 of
        Inl e \<Rightarrow> Inl e
      | Inr p \<Rightarrow> (case competitive_prices is df of Inl e \<Rightarrow> Inl e | Inr ps \<Rightarrow> Inr (p # ps)))"

definition competitive_price_column :: "dataframe \<Rightarrow> error + pyfloat list" where
  "competitive_price_column df = competitive_prices [0..<length df] df"

definition assign_competitive_price :: "dataframe \<Rightarrow> pyfloat list \<Rightarrow> dataframe" where
  "assign_competitive_price df ps = map (\<lambda>(r, p). r\<lparr>CompetitivePrice := Some p\<rparr>) (zip df ps)"

text \<open>
  A variant that is not in the notebook, for stating that the processing order does not
  matter: the same calls made one row at a time in the order \<open>order\<close>, each price written
  into the \<open>CompetitivePrice\<close> column of the shared table before the next row is priced.
\<close>

fun row_by_row :: "nat list \<Rightarrow> dataframe \<Rightarrow> error + dataframe" where
  "row_by_row [] df = Inr df"
| "row_by_row (i # order) df =
     (case competitive_price i df 1 of
        Inl e \<Rightarrow> Inl e
      | Inr p \<Rightarrow> row_by_row order (df[i := (df ! i)\<lparr>CompetitivePrice := Some p\<rparr>]))"

subsection \<open>The two-phase computation of the specification\<close>

text \<open>
  These definitions follow the specification's words, not the notebook. After the demand
  phase every lot is frozen into a snapshot of its location, its demand price and its
  occupancy rate. The neighbour query returns the other lots whose haversine distance to
  the queried lot is at most the radius. The competitive policy reads the snapshot only:
  no neighbour gives the own demand price; an average neighbour occupancy above 0.9 with
  an average neighbour price above the own price gives \<open>min(own_price + 1, 20)\<close>;
  otherwise an average neighbour price below the own price gives
  \<open>max(own_price - 1, 5)\<close>; otherwise the own price. The arithmetic is that of the
  notebook.
\<close>

record lot_snapshot =
  snap_latitude :: real
  snap_longitude :: real
  snap_demand_price :: pyfloat
  snap_occupancy_rate :: pyfloat

definition freeze_row :: "row \<Rightarrow> lot_snapshot" where
  "freeze_row r =
     \<lparr>snap_latitude = Latitude r, snap_longitude = Longitude r,
      snap_demand_price = DemandPrice r,
      snap_occupancy_rate = Fin (to_double (of_int (Occupancy r) / of_int (Capacity r)))\<rparr>"

definition spec_snapshot :: "dataframe \<Rightarrow> lot_snapshot list" where
  "spec_snapshot df = map freeze_row df"

definition spec_geo_query :: "lot_snapshot list \<Rightarrow> nat \<Rightarrow> real \<Rightarrow> nat list" where
  "spec_geo_query snaps lot radius_km =
     filter (\<lambda>j. j \<noteq> lot \<and>
                  haversine (snap_latitude (snaps ! lot)) (snap_longitude (snaps ! lot))
                            (snap_latitude (snaps ! j)) (snap_longitude (snaps ! j)) \<le> radius_km)
            [0..<length snaps]"

definition spec_competitive_policy :: "lot_snapshot list \<Rightarrow> nat \<Rightarrow> pyfloat" where
  "spec_competitive_policy snaps lot =
     (let own_price = snap_demand_price (snaps ! lot);
          neighbors = spec_geo_query snaps lot 1
      in if neighbors = [] then own_price
         else
           let avg_price = np_mean (map (\<lambda>j. snap_demand_price (snaps ! j)) neighbors);
               avg_occ = np_mean (map (\<lambda>j. snap_occupancy_rate (snaps ! j)) neighbors)
           in if lt (Fin (to_double (9 / 10))) avg_occ \<and> lt own_price avg_price
              then py_min (fadd own_price (Fin 1)) (Fin 20)
              else if lt avg_price own_price then py_max (fsub own_price (Fin 1)) (Fin 5)
              else own_price)"

definition spec_two_phase :: "dataframe \<Rightarrow> pyfloat list" where
  "spec_two_phase df =
     (let snaps = spec_snapshot df in map (spec_competitive_policy snaps) [0..<length df])"

subsection \<open>The claimed formulas in exact arithmetic\<close>

text \<open>
  The formulas as the claims word them, read as real arithmetic on the values of the
  inputs: the linear price \<open>base_price + alpha * (occupancy / capacity)\<close> rounded to two
  decimals; the demand price \<open>round(min(max(base_price * (1 + lambda * demand), 5), 20), 2)\<close>
  with \<open>demand\<close> the weighted sum clamped to \<open>[0, 1]\<close>; the competitive rule on the real
  means of the neighbours' prices and occupancy rates.
\<close>

definition exact_round2 :: "real \<Rightarrow> real" where
  "exact_round2 x = of_int (round_half_even (x * 100)) / 100"

definition exact_linear_price :: "real \<Rightarrow> real \<Rightarrow> real \<Rightarrow> real \<Rightarrow> real" where
  "exact_linear_price occupancy capacity base_price alpha =
     exact_round2 (base_price + alpha * (occupancy / capacity))"

definition exact_demand_score :: "real \<Rightarrow> real \<Rightarrow> real \<Rightarrow> real \<Rightarrow> real \<Rightarrow> real" where
  "exact_demand_score normalized_occupancy normalized_queue traffic_encoding vehicle_encoding
     is_special_day =
     min (max (4 / 10 * normalized_occupancy + 3 / 10 * normalized_queue
               + 1 / 10 * (traffic_encoding / 2) + 1 / 10 * (vehicle_encoding / (15 / 10))
               + 1 / 10 * is_special_day) 0) 1"

definition exact_demand_price :: "real \<Rightarrow> real \<Rightarrow> real \<Rightarrow> real" where
  "exact_demand_price demand base_price lambda =
     exact_round2 (min (max (base_price * (1 + lambda * demand)) 5) 20)"

definition exact_mean :: "real list \<Rightarrow> real" where
  "exact_mean xs = sum_list xs / of_nat (length xs)"

definition exact_competitive_rule :: "real \<Rightarrow> (real \<times> real) list \<Rightarrow> real" where
  "exact_competitive_rule own_price neighbors =
     (if neighbors = [] then own_price
      else
        let avg_price = exact_mean (map fst neighbors);
            avg_occ = exact_mean (map snd neighbors)
        in if avg_occ > 9 / 10 \<and> avg_price > own_price then min (own_price + 1) 20
           else if avg_price < own_price then max (own_price - 1) 5
           else own_price)"

subsection \<open>Scenario rows\<close>

text \<open>
  Concrete rows for the scenarios. \<open>scenario_row\<close> fixes what \<^verbatim>\<open>competitive_price\<close>
  reads (demand price, occupancy, capacity, location), \<open>feature_row\<close> what
  \<^verbatim>\<open>demand_based_price\<close> reads, \<open>scenario_reading\<close> the columns of a raw reading;
  the remaining columns hold fixed values that these functions do not read. A decimal
  such as 13.13 enters a row as the double nearest to it, \<open>to_double (1313 / 100)\<close>.
\<close>

definition scenario_row :: "real \<Rightarrow> int \<Rightarrow> int \<Rightarrow> real \<Rightarrow> real \<Rightarrow> row" where
  "scenario_row price occupancy capacity lat lon =
     \<lparr>Occupancy = occupancy, Capacity = capacity, Latitude = lat, Longitude = lon,
      VehicleType = ''car'', TrafficConditionNearby = ''medium'', IsSpecialDay = Fin 0,
      NormalizedOccupancyRate = Fin 0, NormalizedQueueLength = Fin 0,
      TrafficConditionEncoded = Fin 1, VehicleTypeEncoded = Fin 1,
      DemandPrice = Fin (to_double price), CompetitivePrice = None\<rparr>"

definition feature_row :: "pyfloat \<Rightarrow> pyfloat \<Rightarrow> pyfloat \<Rightarrow> pyfloat \<Rightarrow> pyfloat \<Rightarrow> row" where
  "feature_row normalized_occupancy normalized_queue traffic vehicle special_day =
     \<lparr>Occupancy = 0, Capacity = 1, Latitude = 0, Longitude = 0,
      VehicleType = ''car'', TrafficConditionNearby = ''medium'', IsSpecialDay = special_day,
      NormalizedOccupancyRate = normalized_occupancy, NormalizedQueueLength = normalized_queue,
      TrafficConditionEncoded = traffic, VehicleTypeEncoded = vehicle,
      DemandPrice = Fin 0, CompetitivePrice = None\<rparr>"

definition scenario_reading :: "int \<Rightarrow> int \<Rightarrow> string \<Rightarrow> string \<Rightarrow> reading" where
  "scenario_reading occupancy capacity vehicle traffic =
     \<lparr>Occupancy = occupancy, Capacity = capacity, Latitude = 0, Longitude = 0,
      VehicleType = vehicle, TrafficConditionNearby = traffic, IsSpecialDay = Fin 0\<rparr>"

section \<open>Rounding to a double: basic facts\<close>

lemma round_half_even_cases:
  "round_half_even y = \<lfloor>y\<rfloor> \<or> (round_half_even y = \<lfloor>y\<rfloor> + 1 \<and> of_int \<lfloor>y\<rfloor> < y)"
  by (auto simp: round_half_even_def Let_def)

lemma round_half_even_lower: "of_int m \<le> y \<Longrightarrow> m \<le> round_half_even y"
proof -
  assume "of_int m \<le> y"
  then have "m \<le> \<lfloor>y\<rfloor>" by (simp add: le_floor_iff)
  with round_half_even_cases [of y] show ?thesis by auto
qed

lemma round_half_even_upper: "y \<le> of_int n \<Longrightarrow> round_half_even y \<le> n"
proof -
  assume h: "y \<le> of_int n"
  then have le: "\<lfloor>y\<rfloor> \<le> n" by (simp add: floor_le_iff)
  from round_half_even_cases [of y] show ?thesis
  proof
    assume "round_half_even y = \<lfloor>y\<rfloor>"
    with le show ?thesis by simp
  next
    assume c: "round_half_even y = \<lfloor>y\<rfloor> + 1 \<and> of_int \<lfloor>y\<rfloor> < y"
    then have "(of_int \<lfloor>y\<rfloor> :: real) < of_int n" using h by linarith
    then have "\<lfloor>y\<rfloor> < n" by simp
    with c show ?thesis by simp
  qed
qed

lemma round_half_even_of_int [simp]: "round_half_even (of_int k) = k"
  by (simp add: round_half_even_def)

lemma round_half_even_near: "\<bar>of_int (round_half_even y) - y\<bar> \<le> 1 / 2"
proof -
  define d where "d = y - of_int \<lfloor>y\<rfloor>"
  have d: "0 \<le> d" "d < 1" unfolding d_def by linarith+
  have y: "y = of_int \<lfloor>y\<rfloor> + d" unfolding d_def by simp
  have "round_half_even y = (if d < 1 / 2 then \<lfloor>y\<rfloor> else if 1 / 2 < d then \<lfloor>y\<rfloor> + 1
      else if even \<lfloor>y\<rfloor> then \<lfloor>y\<rfloor> else \<lfloor>y\<rfloor> + 1)"
    unfolding round_half_even_def Let_def d_def by simp
  then have "of_int (round_half_even y) - y = - d \<or> of_int (round_half_even y) - y = 1 - d"
    and "of_int (round_half_even y) - y = - d \<longrightarrow> d \<le> 1 / 2"
    and "of_int (round_half_even y) - y = 1 - d \<longrightarrow> 1 / 2 \<le> d"
    using y d by (auto split: if_splits)
  then show ?thesis using d by (auto simp: abs_if)
qed

lemma round_half_even_mono: "a \<le> b \<Longrightarrow> round_half_even a \<le> round_half_even b"
proof (rule ccontr)
  assume ab: "a \<le> b" and "\<not> round_half_even a \<le> round_half_even b"
  then have "round_half_even b + 1 \<le> round_half_even a" by simp
  then have gap: "(of_int (round_half_even b) :: real) + 1 \<le> of_int (round_half_even a)"
    by (metis of_int_1 of_int_add of_int_le_iff)
  from round_half_even_near [of a] round_half_even_near [of b] gap ab
  have eq: "a = b" by (simp add: abs_le_iff) 
  with \<open>\<not> round_half_even a \<le> round_half_even b\<close> show False by simp
qed

lemma round_half_even_minus: "round_half_even (- y) = - round_half_even y"
proof (cases "y = of_int \<lfloor>y\<rfloor>")
  case True
  then obtain k where "y = of_int k" by blast
  then show ?thesis using round_half_even_of_int [of "- k"] by simp
next
  case False
  then have "\<lceil>y\<rceil> = \<lfloor>y\<rfloor> + 1" by (simp add: ceiling_altdef)
  moreover have "\<lfloor>- y\<rfloor> = - \<lceil>y\<rceil>" by (simp add: ceiling_def)
  ultimately have fl: "\<lfloor>- y\<rfloor> = - \<lfloor>y\<rfloor> - 1" by simp
  define d where "d = y - of_int \<lfloor>y\<rfloor>"
  have d': "- y - of_int (- \<lfloor>y\<rfloor> - 1) = 1 - d" unfolding d_def by simp
  have a: "round_half_even y = (if d < 1 / 2 then \<lfloor>y\<rfloor> else if 1 / 2 < d then \<lfloor>y\<rfloor> + 1
      else if even \<lfloor>y\<rfloor> then \<lfloor>y\<rfloor> else \<lfloor>y\<rfloor> + 1)"
    unfolding round_half_even_def Let_def d_def by simp
  have b: "round_half_even (- y) = (if 1 - d < 1 / 2 then - \<lfloor>y\<rfloor> - 1
      else if 1 / 2 < 1 - d then - \<lfloor>y\<rfloor> - 1 + 1
      else if even (- \<lfloor>y\<rfloor> - 1) then - \<lfloor>y\<rfloor> - 1 else - \<lfloor>y\<rfloor> - 1 + 1)"
    unfolding round_half_even_def Let_def fl d' by simp
  show ?thesis unfolding a b by auto
qed

lemma binade_up_bounds:
  "1 \<le> x \<Longrightarrow> e \<le> binade_up x e \<and> 2 powi (binade_up x e - e) \<le> x \<and> x < 2 powi (binade_up x e - e + 1)"
proof (induction x e rule: binade_up.induct)
  case (1 x e)
  show ?case
  proof (cases "x < 2")
    case True
    with "1.prems" show ?thesis by (simp add: binade_up.simps [of x e])
  next
    case False
    then have half: "1 \<le> x / 2" by simp
    let ?r = "binade_up (x / 2) (e + 1)"
    from "1.IH" [OF False half] have le: "e + 1 \<le> ?r"
      and lo: "2 powi (?r - (e + 1)) \<le> x / 2" and hi: "x / 2 < 2 powi (?r - (e + 1) + 1)"
      by simp_all
    have r: "binade_up x e = ?r" using False by (simp add: binade_up.simps [of x e])
    have p: "(2::real) powi (?r - e) = 2 * 2 powi (?r - (e + 1))"
      using power_int_add_1' [of "2::real" "?r - (e + 1)"] by (simp add: algebra_simps)
    have q: "(2::real) powi (?r - e + 1) = 2 * 2 powi (?r - (e + 1) + 1)"
      using power_int_add_1' [of "2::real" "?r - (e + 1) + 1"] by (simp add: algebra_simps)
    show ?thesis unfolding r p q using le lo hi by simp
  qed
qed

lemma binade_down_bounds:
  "0 < x \<Longrightarrow> x < 2 \<Longrightarrow> - 1022 \<le> e \<Longrightarrow>
   - 1022 \<le> binade_down x e \<and> binade_down x e \<le> e \<and>
   x * 2 powi (e - binade_down x e) < 2 \<and>
   (1 \<le> x * 2 powi (e - binade_down x e) \<or> binade_down x e = - 1022)"
proof (induction x e rule: binade_down.induct)
  case (1 x e)
  show ?case
  proof (cases "1 \<le> x \<or> e \<le> - 1022")
    case True
    with "1.prems" show ?thesis by (auto simp: binade_down.simps [of x e])
  next
    case False
    let ?r = "binade_down (2 * x) (e - 1)"
    from False "1.prems" have pre: "0 < 2 * x" "2 * x < 2" "- 1022 \<le> e - 1" by simp_all
    from "1.IH" [OF False pre] have a: "- 1022 \<le> ?r" and b: "?r \<le> e - 1"
      and c: "2 * x * 2 powi (e - 1 - ?r) < 2"
      and d: "1 \<le> 2 * x * 2 powi (e - 1 - ?r) \<or> ?r = - 1022"
      by simp_all
    have r: "binade_down x e = ?r" using False by (simp add: binade_down.simps [of x e])
    have p: "(2::real) powi (e - ?r) = 2 * 2 powi (e - 1 - ?r)"
      using power_int_add_1' [of "2::real" "e - 1 - ?r"] by (simp add: algebra_simps)
    show ?thesis unfolding r p using a b c d by (simp add: algebra_simps)
  qed
qed

lemma two_powi_succ: "(2::real) powi (e + 1) = 2 * 2 powi e"
  using power_int_add_1' [of "2::real" e] by simp

lemma binade_spec:
  assumes "x \<noteq> 0"
  shows "- 1022 \<le> binade x \<and> \<bar>x\<bar> < 2 powi (binade x + 1) \<and>
         (2 powi binade x \<le> \<bar>x\<bar> \<or> binade x = - 1022)"
proof (cases "1 \<le> \<bar>x\<bar>")
  case True
  with binade_up_bounds [of "\<bar>x\<bar>" 0] show ?thesis by (simp add: binade_def)
next
  case False
  with assms have "0 < \<bar>x\<bar>" "\<bar>x\<bar> < 2" by simp_all
  from binade_down_bounds [OF this, of 0] False
  have "- 1022 \<le> binade x" and "\<bar>x\<bar> * 2 powi (- binade x) < 2"
    and "1 \<le> \<bar>x\<bar> * 2 powi (- binade x) \<or> binade x = - 1022"
    by (simp_all add: binade_def)
  moreover have "(2::real) powi (binade x + 1) = 2 * 2 powi binade x" by (rule two_powi_succ)
  ultimately show ?thesis by (simp add: power_int_minus field_simps)
qed

lemma binade_unique:
  assumes "x \<noteq> 0" and "- 1022 \<le> e" and "\<bar>x\<bar> < 2 powi (e + 1)"
    and "2 powi e \<le> \<bar>x\<bar> \<or> e = - 1022"
  shows "binade x = e"
proof (rule ccontr)
  assume ne: "binade x \<noteq> e"
  from binade_spec [OF assms(1)] have b0: "- 1022 \<le> binade x"
    and b1: "\<bar>x\<bar> < 2 powi (binade x + 1)"
    and b2: "2 powi binade x \<le> \<bar>x\<bar> \<or> binade x = - 1022" by simp_all
  show False
  proof (cases "binade x < e")
    case True
    then have "binade x + 1 \<le> e" by simp
    then have "(2::real) powi (binade x + 1) \<le> 2 powi e" by (simp add: power_int_increasing)
    with b1 have "\<bar>x\<bar> < 2 powi e" by simp
    with assms(4) have "e = - 1022" by simp
    with True b0 show False by simp
  next
    case False
    with ne have "e + 1 \<le> binade x" by simp
    then have "(2::real) powi (e + 1) \<le> 2 powi binade x" by (simp add: power_int_increasing)
    with assms(3) have "\<bar>x\<bar> < 2 powi binade x" by simp
    with b2 have "binade x = - 1022" by simp
    with \<open>e + 1 \<le> binade x\<close> assms(2) show False by simp
  qed
qed

lemma to_double_0 [simp]: "to_double 0 = 0"
  by (simp add: to_double_def round_half_even_def)

lemma to_double_binade:
  assumes "x \<noteq> 0" and "- 1022 \<le> e" and "\<bar>x\<bar> < 2 powi (e + 1)"
    and "2 powi e \<le> \<bar>x\<bar> \<or> e = - 1022"
  shows "to_double x = of_int (round_half_even (x / 2 powi (e - 52))) * 2 powi (e - 52)"
  using binade_unique [OF assms] by (simp add: to_double_def ulp_def)

lemma ulp_pos: "0 < ulp x"
  by (simp add: ulp_def)

lemma binade_minus [simp]: "binade (- x) = binade x"
  by (simp add: binade_def)

lemma ulp_minus [simp]: "ulp (- x) = ulp x"
  by (simp add: ulp_def)

lemma to_double_minus: "to_double (- x) = - to_double x"
  by (simp add: to_double_def round_half_even_minus)

lemma to_double_nonneg: "0 \<le> x \<Longrightarrow> 0 \<le> to_double x"
proof -
  assume "0 \<le> x"
  then have "of_int 0 \<le> x / ulp x" using ulp_pos [of x] by simp
  then have "0 \<le> round_half_even (x / ulp x)" by (rule round_half_even_lower)
  then show ?thesis using ulp_pos [of x] by (simp add: to_double_def)
qed

lemma two_powi_52: "(2::real) powi e = 2 ^ 52 * 2 powi (e - 52)"
proof -
  have "(2::real) powi e = 2 powi (52 + (e - 52))" by simp
  also have "\<dots> = 2 powi 52 * 2 powi (e - 52)" by (subst power_int_add) simp_all
  finally show ?thesis by simp
qed

lemma two_powi_53: "(2::real) powi (e + 1) = 2 ^ 53 * 2 powi (e - 52)"
proof -
  have "(2::real) powi (e + 1) = 2 powi (53 + (e - 52))" by (simp add: algebra_simps)
  also have "\<dots> = 2 powi 53 * 2 powi (e - 52)" by (subst power_int_add) simp_all
  finally show ?thesis by simp
qed

lemma to_double_le_top:
  assumes "0 < x"
  shows "to_double x \<le> 2 powi (binade x + 1)"
proof -
  from assms binade_spec [of x] have "x < 2 powi (binade x + 1)" by simp
  then have "x < 2 ^ 53 * ulp x" unfolding ulp_def by (simp add: two_powi_53 [of "binade x"])
  then have "x / ulp x \<le> of_int (2 ^ 53)" using ulp_pos [of x] by (simp add: field_simps)
  then have "round_half_even (x / ulp x) \<le> 2 ^ 53" by (rule round_half_even_upper)
  then have "(of_int (round_half_even (x / ulp x)) :: real) \<le> of_int (2 ^ 53)"
    by (simp only: of_int_le_iff)
  then have "to_double x \<le> 2 ^ 53 * ulp x"
    unfolding to_double_def using ulp_pos [of x] by simp
  then show ?thesis unfolding ulp_def by (simp add: two_powi_53 [of "binade x"])
qed

lemma to_double_ge_bottom:
  assumes "0 < x" and "2 powi binade x \<le> x"
  shows "2 powi binade x \<le> to_double x"
proof -
  from assms(2) have "2 ^ 52 * ulp x \<le> x" unfolding ulp_def by (simp add: two_powi_52 [of "binade x"])
  then have "of_int (2 ^ 52) \<le> x / ulp x" using ulp_pos [of x] by (simp add: field_simps)
  then have "2 ^ 52 \<le> round_half_even (x / ulp x)" by (rule round_half_even_lower)
  then have "(of_int (2 ^ 52) :: real) \<le> of_int (round_half_even (x / ulp x))"
    by (simp only: of_int_le_iff)
  then have "2 ^ 52 * ulp x \<le> to_double x"
    unfolding to_double_def using ulp_pos [of x] by simp
  then show ?thesis unfolding ulp_def by (simp add: two_powi_52 [of "binade x"])
qed

lemma binade_mono_pos:
  assumes "0 < x" and "x \<le> y"
  shows "binade x \<le> binade y"
proof (rule ccontr)
  assume "\<not> binade x \<le> binade y"
  then have lt: "binade y + 1 \<le> binade x" by simp
  from assms have y: "0 < y" by simp
  from binade_spec [of y] y have "y < 2 powi (binade y + 1)" and "- 1022 \<le> binade y" by simp_all
  moreover have "(2::real) powi (binade y + 1) \<le> 2 powi binade x"
    using lt by (simp add: power_int_increasing)
  moreover from binade_spec [of x] assms(1) lt \<open>- 1022 \<le> binade y\<close>
  have "2 powi binade x \<le> x" by auto
  ultimately show False using assms(2) by simp
qed

lemma to_double_mono_pos:
  assumes "0 < x" and "x \<le> y"
  shows "to_double x \<le> to_double y"
proof (cases "binade x = binade y")
  case True
  then have u: "ulp x = ulp y" by (simp add: ulp_def)
  from assms(2) have "x / ulp y \<le> y / ulp y" using ulp_pos [of y] by (simp add: divide_right_mono)
  then have "round_half_even (x / ulp y) \<le> round_half_even (y / ulp y)"
    by (rule round_half_even_mono)
  then have "(of_int (round_half_even (x / ulp y)) :: real) \<le> of_int (round_half_even (y / ulp y))"
    by (simp only: of_int_le_iff)
  then show ?thesis unfolding to_double_def u using ulp_pos [of y] by simp
next
  case False
  with binade_mono_pos [OF assms] have lt: "binade x + 1 \<le> binade y" by simp
  from assms have y: "0 < y" by simp
  from binade_spec [of x] assms(1) have "- 1022 \<le> binade x" by simp
  with lt binade_spec [of y] y have "2 powi binade y \<le> y" by auto
  with y have "2 powi binade y \<le> to_double y" by (rule to_double_ge_bottom)
  moreover have "(2::real) powi (binade x + 1) \<le> 2 powi binade y"
    using lt by (simp add: power_int_increasing)
  moreover have "to_double x \<le> 2 powi (binade x + 1)" using assms(1) by (rule to_double_le_top)
  ultimately show ?thesis by simp
qed

lemma to_double_mono: "x \<le> y \<Longrightarrow> to_double x \<le> to_double y"
proof -
  assume xy: "x \<le> y"
  consider "0 < x" | "x \<le> 0" "0 \<le> y" | "y < 0" by linarith
  then show ?thesis
  proof cases
    case 1
    then show ?thesis using xy by (rule to_double_mono_pos)
  next
    case 2
    from 2(1) have "0 \<le> to_double (- x)" by (simp add: to_double_nonneg)
    then have "to_double x \<le> 0" by (simp add: to_double_minus)
    with to_double_nonneg [OF 2(2)] show ?thesis by simp
  next
    case 3
    then have "0 < - y" and "- y \<le> - x" using xy by simp_all
    then have "to_double (- y) \<le> to_double (- x)" by (rule to_double_mono_pos)
    then show ?thesis by (simp add: to_double_minus)
  qed
qed

subsection \<open>Ranges and exact sums\<close>

lemma round_half_even_numeral [simp]: "round_half_even (numeral n) = numeral n"
  using round_half_even_of_int [of "numeral n"] by simp

lemma round_half_even_neg_numeral [simp]: "round_half_even (- numeral n) = - numeral n"
  using round_half_even_of_int [of "- numeral n"] by simp

lemma to_double_pow2: "to_double (2 ^ n) = 2 ^ n"
proof -
  have b: "binade (2 ^ n) = int n"
    by (rule binade_unique) (simp_all add: two_powi_succ)
  have "(2::real) ^ n = 2 powi (int n)" by simp
  also have "\<dots> = 2 ^ 52 * 2 powi (int n - 52)" by (rule two_powi_52)
  finally have "(2::real) ^ n / 2 powi (int n - 52) = of_int (2 ^ 52)" by simp
  then have "round_half_even (2 ^ n / 2 powi (int n - 52)) = 2 ^ 52"
    by (simp only: round_half_even_of_int)
  then have "to_double (2 ^ n) = 2 ^ 52 * 2 powi (int n - 52)"
    by (simp add: to_double_def ulp_def b)
  also have "\<dots> = 2 powi (int n)" by (rule two_powi_52 [symmetric])
  finally show ?thesis by simp
qed

lemma to_double_consts:
  "to_double 1 = 1" "to_double 5 = 5" "to_double 6 = 6" "to_double 8 = 8" "to_double 10 = 10"
  "to_double 15 = 15" "to_double 16 = 16" "to_double 19 = 19" "to_double 20 = 20"
  by (simp_all add: to_double_binade [of _ 0] to_double_binade [of _ 2] to_double_binade [of _ 3]
      to_double_binade [of _ 4])

lemma to_double_between:
  "to_double a = a \<Longrightarrow> to_double b = b \<Longrightarrow> a \<le> x \<Longrightarrow> x \<le> b \<Longrightarrow>
   a \<le> to_double x \<and> to_double x \<le> b"
  using to_double_mono [of a x] to_double_mono [of x b] by simp

lemma exact_round2_range:
  assumes "of_int a / 100 \<le> (x::real)" and "x \<le> of_int b / 100"
  shows "of_int a / (100::real) \<le> of_int (round_half_even (x * 100)) / 100 \<and>
         of_int (round_half_even (x * 100)) / 100 \<le> of_int b / (100::real)"
proof -
  from assms have "of_int a \<le> x * 100" and "x * 100 \<le> of_int b" by (simp_all add: field_simps)
  then have "a \<le> round_half_even (x * 100)" and "round_half_even (x * 100) \<le> b"
    by (simp_all add: round_half_even_lower round_half_even_upper)
  then have "(of_int a :: real) \<le> of_int (round_half_even (x * 100))"
    and "(of_int (round_half_even (x * 100)) :: real) \<le> of_int b"
    by simp_all
  then show ?thesis by (simp add: field_simps)
qed

lemma py_round_2_in_5_20: "5 \<le> x \<Longrightarrow> x \<le> 20 \<Longrightarrow> 5 \<le> py_round x 2 \<and> py_round x 2 \<le> 20"
proof -
  assume "5 \<le> x" and "x \<le> 20"
  with exact_round2_range [of 500 x 2000]
  have "(5::real) \<le> of_int (round_half_even (x * 100)) / 100"
    and "of_int (round_half_even (x * 100)) / 100 \<le> (20::real)" by simp_all
  then show ?thesis
    unfolding py_round_def using to_double_between [of 5 20] by (simp add: to_double_consts)
qed

lemma py_round_2_in_10_15: "10 \<le> x \<Longrightarrow> x \<le> 15 \<Longrightarrow> 10 \<le> py_round x 2 \<and> py_round x 2 \<le> 15"
proof -
  assume "10 \<le> x" and "x \<le> 15"
  with exact_round2_range [of 1000 x 1500]
  have "(10::real) \<le> of_int (round_half_even (x * 100)) / 100"
    and "of_int (round_half_even (x * 100)) / 100 \<le> (15::real)" by simp_all
  then show ?thesis
    unfolding py_round_def using to_double_between [of 10 15] by (simp add: to_double_consts)
qed

text \<open>Doubles between 8 and 16 are the multiples of \<open>2^-49\<close>; adding or subtracting 1 stays on
  that grid.\<close>

lemma to_double_grid3:
  assumes "8 \<le> x" and "x < 16"
  shows "to_double x = of_int (round_half_even (x * 2 ^ 49)) / 2 ^ 49"
proof -
  have "to_double x = of_int (round_half_even (x / 2 powi (3 - 52))) * 2 powi (3 - 52)"
    using assms by (intro to_double_binade) simp_all
  then show ?thesis by (simp add: power_int_minus field_simps)
qed

lemma to_double_on_grid3:
  assumes "8 \<le> of_int m / (2 ^ 49 :: real)" and "of_int m / (2 ^ 49 :: real) \<le> 16"
  shows "to_double (of_int m / 2 ^ 49) = of_int m / 2 ^ 49"
proof (cases "of_int m / (2 ^ 49 :: real) < 16")
  case True
  have "of_int m / (2 ^ 49 :: real) * 2 ^ 49 = of_int m" by simp
  then show ?thesis
    using to_double_grid3 [OF assms(1) True] by (simp only: round_half_even_of_int)
next
  case False
  with assms(2) have "of_int m / (2 ^ 49 :: real) = 16" by simp
  then show ?thesis by (simp only: to_double_consts)
qed

lemma double_in_8_16_grid:
  assumes "8 \<le> z" and "z < 16"
  shows "\<exists>m. to_double z = of_int m / 2 ^ 49"
  using to_double_grid3 [OF assms] by blast

lemma to_double_plus_one_exact:
  assumes "8 \<le> z" and "z \<le> 15"
  shows "to_double (to_double z + 1) = to_double z + 1"
proof -
  from assms have z16: "z < 16" by simp
  from double_in_8_16_grid [OF assms(1) z16] obtain m where m: "to_double z = of_int m / 2 ^ 49"
    by blast
  from to_double_between [of 8 15 z] assms have r: "8 \<le> to_double z" "to_double z \<le> 15"
    by (simp_all add: to_double_consts)
  have e: "to_double z + 1 = of_int (m + 2 ^ 49) / 2 ^ 49" unfolding m by (simp add: field_simps)
  from r have "8 \<le> to_double z + 1" and "to_double z + 1 \<le> 16" by simp_all
  then have "8 \<le> of_int (m + 2 ^ 49) / (2 ^ 49 :: real)"
    and "of_int (m + 2 ^ 49) / (2 ^ 49 :: real) \<le> 16" by (simp_all only: e)
  then have "to_double (of_int (m + 2 ^ 49) / 2 ^ 49) = of_int (m + 2 ^ 49) / 2 ^ 49"
    by (rule to_double_on_grid3)
  then show ?thesis by (simp only: e)
qed

lemma to_double_minus_one_exact:
  assumes "9 \<le> z" and "z < 16"
  shows "to_double (to_double z - 1) = to_double z - 1"
proof -
  from assms have z8: "8 \<le> z" by simp
  from double_in_8_16_grid [OF z8 assms(2)] obtain m where m: "to_double z = of_int m / 2 ^ 49"
    by blast
  have c9: "to_double 9 = 9" by (simp add: to_double_binade [of _ 3])
  from to_double_between [of 9 16 z] assms have r: "9 \<le> to_double z" "to_double z \<le> 16"
    by (simp_all add: to_double_consts c9)
  have e: "to_double z - 1 = of_int (m - 2 ^ 49) / 2 ^ 49" unfolding m by (simp add: field_simps)
  from r have "8 \<le> to_double z - 1" and "to_double z - 1 \<le> 16" by simp_all
  then have "8 \<le> of_int (m - 2 ^ 49) / (2 ^ 49 :: real)"
    and "of_int (m - 2 ^ 49) / (2 ^ 49 :: real) \<le> 16" by (simp_all only: e)
  then have "to_double (of_int (m - 2 ^ 49) / 2 ^ 49) = of_int (m - 2 ^ 49) / 2 ^ 49"
    by (rule to_double_on_grid3)
  then show ?thesis by (simp only: e)
qed

section \<open>Facts about the pricing functions\<close>

subsection \<open>NaN, clamps and ranges\<close>

lemma py_max_Fin [simp]: "py_max (Fin a) (Fin b) = Fin (max a b)"
  by (simp add: py_max_def max_def)

lemma py_min_Fin [simp]: "py_min (Fin a) (Fin b) = Fin (min a b)"
  by (simp add: py_min_def min_def)

lemma py_max_NaN [simp]: "py_max NaN b = NaN"
  by (simp add: py_max_def)

lemma py_min_NaN [simp]: "py_min NaN b = NaN"
  by (simp add: py_min_def)

lemma lt_NaN_right [simp]: "lt a NaN = False"
  by (cases a) simp_all

lemma fadd_NaN_right [simp]: "fadd a NaN = NaN"
  by (cases a) simp_all

lemma fmul_NaN_right [simp]: "fmul a NaN = NaN"
  by (cases a) simp_all

lemma fdiv_NaN_right [simp]: "fdiv a NaN = NaN"
  by (cases a) simp_all

lemma fsub_NaN_right [simp]: "fsub a NaN = NaN"
  by (cases a) simp_all

lemma weighted_sum_NaN_iff:
  "weighted_sum r = NaN \<longleftrightarrow>
     NormalizedOccupancyRate r = NaN \<or> NormalizedQueueLength r = NaN \<or>
     TrafficConditionEncoded r = NaN \<or> VehicleTypeEncoded r = NaN \<or> IsSpecialDay r = NaN"
  unfolding weighted_sum_def Let_def
  by (cases "NormalizedOccupancyRate r"; cases "NormalizedQueueLength r";
      cases "TrafficConditionEncoded r"; cases "VehicleTypeEncoded r"; cases "IsSpecialDay r")
    simp_all

lemma demand_score_NaN_iff: "demand_score r = NaN \<longleftrightarrow> weighted_sum r = NaN"
  by (cases "weighted_sum r") (simp_all add: demand_score_def)

lemma demand_score_range:
  "demand_score r = Fin d \<Longrightarrow> 0 \<le> d \<and> d \<le> 1"
  by (cases "weighted_sum r") (auto simp: demand_score_def)

lemma demand_based_price_NaN:
  "demand_score r = NaN \<Longrightarrow> demand_based_price r base_price lambd = NaN"
  by (simp add: demand_based_price_def)

lemma demand_based_price_range:
  assumes "demand_score r = Fin d"
  shows "\<exists>p. demand_based_price r base_price lambd = Fin p \<and> 5 \<le> p \<and> p \<le> 20"
proof -
  define v where "v = to_double (base_price * to_double (1 + to_double (lambd * d)))"
  have "demand_based_price r base_price lambd = Fin (py_round (min (max v 5) 20) 2)"
    by (simp add: demand_based_price_def assms v_def)
  moreover have "5 \<le> py_round (min (max v 5) 20) 2 \<and> py_round (min (max v 5) 20) 2 \<le> 20"
    by (rule py_round_2_in_5_20) simp_all
  ultimately show ?thesis by blast
qed

lemma to_double_half: "to_double (1 / 2) = 1 / 2" "to_double (3 / 2) = 3 / 2"
  by (simp_all add: to_double_binade [of _ "-1"] to_double_binade [of _ 0])

lemma default_unrounded_range:
  assumes "0 \<le> d" and "d \<le> 1"
  shows "10 \<le> to_double (10 * to_double (1 + to_double (5 / 10 * d))) \<and>
         to_double (10 * to_double (1 + to_double (5 / 10 * d))) \<le> 15"
proof -
  from assms have "0 \<le> 5 / 10 * d" and "5 / 10 * d \<le> 1 / 2" by simp_all
  with to_double_between [of 0 "1 / 2" "5 / 10 * d"]
  have a: "0 \<le> to_double (5 / 10 * d)" "to_double (5 / 10 * d) \<le> 1 / 2"
    by (simp_all add: to_double_half)
  then have "1 \<le> 1 + to_double (5 / 10 * d)" and "1 + to_double (5 / 10 * d) \<le> 3 / 2" by simp_all
  with to_double_between [of 1 "3 / 2" "1 + to_double (5 / 10 * d)"]
  have b: "1 \<le> to_double (1 + to_double (5 / 10 * d))"
    "to_double (1 + to_double (5 / 10 * d)) \<le> 3 / 2"
    by (simp_all add: to_double_half to_double_consts)
  then have "10 \<le> 10 * to_double (1 + to_double (5 / 10 * d))"
    and "10 * to_double (1 + to_double (5 / 10 * d)) \<le> 15" by simp_all
  with to_double_between [of 10 15 "10 * to_double (1 + to_double (5 / 10 * d))"]
  show ?thesis by (simp add: to_double_consts)
qed

lemma demand_based_price_default_range:
  assumes "demand_score r = Fin d"
  shows "\<exists>z. 10 \<le> z \<and> z \<le> 15 \<and> demand_based_price_default r = Fin (to_double z) \<and>
             10 \<le> to_double z \<and> to_double z \<le> 15"
proof -
  define v where "v = to_double (10 * to_double (1 + to_double (5 / 10 * d)))"
  from demand_score_range [OF assms] have v: "10 \<le> v" "v \<le> 15"
    unfolding v_def using default_unrounded_range [of d] by simp_all
  define z where "z = of_int (round_half_even (v * 100)) / (100::real)"
  from exact_round2_range [of 1000 v 1500] v have z: "10 \<le> z" "z \<le> 15"
    unfolding z_def by simp_all
  have "demand_based_price_default r = Fin (py_round v 2)"
    using v by (simp add: demand_based_price_default_def demand_based_price_def assms v_def)
  then have "demand_based_price_default r = Fin (to_double z)"
    by (simp add: py_round_def z_def)
  moreover from to_double_between [of 10 15 z] z
  have "10 \<le> to_double z \<and> to_double z \<le> 15" by (simp add: to_double_consts)
  ultimately show ?thesis using z by blast
qed

lemma adjust_price_NaN [simp]: "adjust_price NaN neighbors = NaN"
  by (simp add: adjust_price_def Let_def)

lemma adjust_price_Fin_cases:
  "adjust_price (Fin y) neighbors = Fin y \<or>
   adjust_price (Fin y) neighbors = Fin (min (to_double (y + 1)) 20) \<or>
   adjust_price (Fin y) neighbors = Fin (max (to_double (y - 1)) 5)"
  by (simp add: adjust_price_def Let_def)

lemma adjust_price_range:
  assumes "5 \<le> y" and "y \<le> 20"
  shows "\<exists>p. adjust_price (Fin y) neighbors = Fin p \<and> 5 \<le> p \<and> p \<le> 20"
proof -
  from assms to_double_between [of 6 21 "y + 1"] have "6 \<le> to_double (y + 1)"
    by (simp add: to_double_consts to_double_mono [of 6 "y + 1", simplified to_double_consts])
  moreover from assms to_double_mono [of "y - 1" 19] have "to_double (y - 1) \<le> 19"
    by (simp add: to_double_consts)
  ultimately show ?thesis
    using adjust_price_Fin_cases [of y neighbors] assms by auto
qed

lemma adjust_price_near:
  assumes "10 \<le> z" and "z \<le> 15"
  shows "\<exists>p. adjust_price (Fin (to_double z)) neighbors = Fin p \<and>
             (p = to_double z \<or> p = to_double z + 1 \<or> p = to_double z - 1)"
proof -
  from assms to_double_between [of 10 15 z] have r: "10 \<le> to_double z" "to_double z \<le> 15"
    by (simp_all add: to_double_consts)
  have up: "to_double (to_double z + 1) = to_double z + 1"
    using assms by (intro to_double_plus_one_exact) simp_all
  have dn: "to_double (to_double z - 1) = to_double z - 1"
    using assms by (intro to_double_minus_one_exact) simp_all
  from r have "min (to_double z + 1) 20 = to_double z + 1"
    and "max (to_double z - 1) 5 = to_double z - 1" by simp_all
  then show ?thesis
    using adjust_price_Fin_cases [of "to_double z" neighbors] by (auto simp: up dn)
qed

subsection \<open>Distance, neighbours and the two-phase computation\<close>

lemma scenario_row_simps:
  "Occupancy (scenario_row p oc c la lo) = oc" "Capacity (scenario_row p oc c la lo) = c"
  "Latitude (scenario_row p oc c la lo) = la" "Longitude (scenario_row p oc c la lo) = lo"
  "DemandPrice (scenario_row p oc c la lo) = Fin (to_double p)"
  by (simp_all add: scenario_row_def)

lemma scenario_reading_simps:
  "Occupancy (scenario_reading oc c v t) = oc" "Capacity (scenario_reading oc c v t) = c"
  "VehicleType (scenario_reading oc c v t) = v"
  "TrafficConditionNearby (scenario_reading oc c v t) = t"
  by (simp_all add: scenario_reading_def)

lemma haversine_self: "haversine lat lon lat lon = 0"
  by (simp add: haversine_def haversine_a_def np_radians_def)

lemma sin_sq_neg: "(sin (np_radians (b - a) / 2))\<^sup>2 = (sin (np_radians (a - b) / 2))\<^sup>2"
proof -
  have "np_radians (b - a) / 2 = - (np_radians (a - b) / 2)"
    by (simp add: np_radians_def field_simps)
  then show ?thesis by (simp only: sin_minus power2_minus)
qed

lemma haversine_a_sym: "haversine_a lat1 lon1 lat2 lon2 = haversine_a lat2 lon2 lat1 lon1"
  unfolding haversine_a_def Let_def
  by (simp only: sin_sq_neg [of lat2 lat1] sin_sq_neg [of lon2 lon1] mult.commute [of "cos (np_radians lat1)"])

lemma haversine_sym: "haversine lat1 lon1 lat2 lon2 = haversine lat2 lon2 lat1 lon1"
  unfolding haversine_def by (simp only: haversine_a_sym [of lat1 lon1 lat2 lon2])

lemma sin_half_sq: "(sin (x / 2))\<^sup>2 = (1 - cos x) / (2::real)"
  using cos_double_sin [of "x / 2"] by simp

lemma haversine_a_alt:
  "haversine_a lat1 lon1 lat2 lon2 =
     (1 - cos (np_radians lat2 - np_radians lat1) * (1 - (sin (np_radians (lon2 - lon1) / 2))\<^sup>2)
        + cos (np_radians lat1 + np_radians lat2) * (sin (np_radians (lon2 - lon1) / 2))\<^sup>2) / 2"
proof -
  have lin: "np_radians (lat2 - lat1) = np_radians lat2 - np_radians lat1"
    by (simp add: np_radians_def field_simps)
  have half: "(sin ((np_radians lat2 - np_radians lat1) / 2))\<^sup>2
              = (1 - cos (np_radians lat2 - np_radians lat1)) / 2"
    by (rule sin_half_sq)
  have prod: "cos (np_radians lat1) * cos (np_radians lat2)
              = (cos (np_radians lat2 - np_radians lat1) + cos (np_radians lat1 + np_radians lat2)) / 2"
    by (simp add: cos_add cos_diff)
  show ?thesis
    unfolding haversine_a_def Let_def lin half prod by (simp add: field_simps)
qed

lemma haversine_a_range:
  "0 \<le> haversine_a lat1 lon1 lat2 lon2 \<and> haversine_a lat1 lon1 lat2 lon2 \<le> 1"
proof -
  define D where "D = cos (np_radians lat2 - np_radians lat1)"
  define S where "S = cos (np_radians lat1 + np_radians lat2)"
  define t where "t = (sin (np_radians (lon2 - lon1) / 2))\<^sup>2"
  have a: "haversine_a lat1 lon1 lat2 lon2 = (1 - D * (1 - t) + S * t) / 2"
    unfolding D_def S_def t_def by (rule haversine_a_alt)
  have t0: "0 \<le> t" unfolding t_def by simp
  have t1: "t \<le> 1" unfolding t_def
    using abs_sin_le_one [of "np_radians (lon2 - lon1) / 2"] by (simp add: power2_le_iff_abs_le abs_square_le_1)
  have D: "- 1 \<le> D" "D \<le> 1" and S: "- 1 \<le> S" "S \<le> 1"
    unfolding D_def S_def by simp_all
  have d1: "D * (1 - t) \<le> 1 * (1 - t)" using D t1 by (intro mult_right_mono) simp_all
  have d2: "(- 1) * (1 - t) \<le> D * (1 - t)" using D t1 by (intro mult_right_mono) simp_all
  have s1: "S * t \<le> 1 * t" using S t0 by (intro mult_right_mono) simp_all
  have s2: "(- 1) * t \<le> S * t" using S t0 by (intro mult_right_mono) simp_all
  from d1 d2 s1 s2 show ?thesis unfolding a by simp
qed

lemma haversine_nonneg: "0 \<le> haversine lat1 lon1 lat2 lon2"
proof -
  have "sqrt (haversine_a lat1 lon1 lat2 lon2) \<in> {0..1}"
    using haversine_a_range [of lat1 lon1 lat2 lon2] by (simp add: real_le_lsqrt)
  then have "0 \<le> arcsin (sqrt (haversine_a lat1 lon1 lat2 lon2))" by (rule arcsin_nonneg)
  then show ?thesis unfolding haversine_def by simp
qed

lemma haversine_half_turn: "haversine 0 0 0 180 = 6371 * pi"
  by (simp add: haversine_def haversine_a_def np_radians_def)

lemma haversine_far: "\<not> haversine 0 0 0 180 \<le> 1"
  using pi_gt_zero pi_ge_two by (simp add: haversine_half_turn)

lemma neighbors_loop_filter:
  "\<forall>(j, r) \<in> set rows. Capacity r \<noteq> 0 \<Longrightarrow>
   neighbors_loop index lat1 lon1 radius_km rows acc =
     Inr (acc @ map (\<lambda>(j, r). (DemandPrice r, Fin (to_double (of_int (Occupancy r) / of_int (Capacity r)))))
                  (filter (\<lambda>(j, r). j \<noteq> index \<and>
                              haversine lat1 lon1 (Latitude r) (Longitude r) \<le> radius_km) rows))"
proof (induction rows arbitrary: acc)
  case Nil
  show ?case by simp
next
  case (Cons jr rows)
  obtain j r where jr: "jr = (j, r)" by (cases jr)
  from Cons.prems jr have cap: "Capacity r \<noteq> 0" and rest: "\<forall>(j, r) \<in> set rows. Capacity r \<noteq> 0"
    by simp_all
  show ?case
    unfolding jr using cap by (simp add: Cons.IH [OF rest] truediv_def)
qed

lemma enumerate_nth: "enumerate 0 xs = map (\<lambda>j. (j, xs ! j)) [0..<length xs]"
  by (rule nth_equalityI) (simp_all add: nth_enumerate_eq)

lemma neighbors_loop_nth:
  assumes "\<forall>r \<in> set df. Capacity r \<noteq> 0"
  shows "neighbors_loop index lat1 lon1 radius_km (enumerate 0 df) [] =
     Inr (map (\<lambda>j. (DemandPrice (df ! j),
                       Fin (to_double (of_int (Occupancy (df ! j)) / of_int (Capacity (df ! j))))))
            (filter (\<lambda>j. j \<noteq> index \<and>
                       haversine lat1 lon1 (Latitude (df ! j)) (Longitude (df ! j)) \<le> radius_km)
               [0..<length df]))"
proof -
  have caps: "\<forall>(j, r) \<in> set (enumerate 0 df). Capacity r \<noteq> 0"
    using assms by (auto simp: enumerate_eq_zip dest: set_zip_rightD)
  have "neighbors_loop index lat1 lon1 radius_km (enumerate 0 df) [] =
     Inr ([] @ map (\<lambda>(j, r). (DemandPrice r, Fin (to_double (of_int (Occupancy r) / of_int (Capacity r)))))
                  (filter (\<lambda>(j, r). j \<noteq> index \<and>
                              haversine lat1 lon1 (Latitude r) (Longitude r) \<le> radius_km)
                     (enumerate 0 df)))"
    using caps by (rule neighbors_loop_filter)
  then show ?thesis by (simp add: enumerate_nth filter_map comp_def)
qed

lemma competitive_price_adjust:
  assumes "index < length df" and "\<forall>r \<in> set df. Capacity r \<noteq> 0"
  shows "competitive_price index df radius_km =
     Inr (adjust_price (DemandPrice (df ! index))
            (map (\<lambda>j. (DemandPrice (df ! j),
                       Fin (to_double (of_int (Occupancy (df ! j)) / of_int (Capacity (df ! j))))))
               (filter (\<lambda>j. j \<noteq> index \<and>
                     haversine (Latitude (df ! index)) (Longitude (df ! index))
                               (Latitude (df ! j)) (Longitude (df ! j)) \<le> radius_km)
                  [0..<length df])))"
  unfolding competitive_price_def Let_def
  using assms(1) by (simp add: neighbors_loop_nth [OF assms(2)])

lemma adjust_price_snapshot:
  assumes "index < length df"
  shows "adjust_price (DemandPrice (df ! index))
           (map (\<lambda>(j, r). (DemandPrice r, Fin (to_double (of_int (Occupancy r) / of_int (Capacity r)))))
              (filter (\<lambda>(j, r). j \<noteq> index \<and>
                   haversine (Latitude (df ! index)) (Longitude (df ! index)) (Latitude r) (Longitude r) \<le> 1)
                 (enumerate 0 df)))
         = spec_competitive_policy (spec_snapshot df) index"
proof -
  let ?P = "\<lambda>j. j \<noteq> index \<and>
      haversine (Latitude (df ! index)) (Longitude (df ! index)) (Latitude (df ! j)) (Longitude (df ! j)) \<le> 1"
  let ?N = "filter ?P [0..<length df]"
  have q: "spec_geo_query (spec_snapshot df) index 1 = ?N"
    unfolding spec_geo_query_def spec_snapshot_def using assms
    by (auto simp: freeze_row_def intro!: filter_cong)
  have f: "filter (\<lambda>(j, r). j \<noteq> index \<and>
                   haversine (Latitude (df ! index)) (Longitude (df ! index)) (Latitude r) (Longitude r) \<le> 1)
                 (enumerate 0 df) = map (\<lambda>j. (j, df ! j)) ?N"
    unfolding enumerate_nth by (simp add: filter_map comp_def)
  have inN: "\<And>j. j \<in> set ?N \<Longrightarrow> j < length df" by simp
  have p: "map (\<lambda>j. snap_demand_price (spec_snapshot df ! j)) ?N = map (\<lambda>j. DemandPrice (df ! j)) ?N"
    by (rule map_cong) (simp_all add: spec_snapshot_def freeze_row_def)
  have o: "map (\<lambda>j. snap_occupancy_rate (spec_snapshot df ! j)) ?N
           = map (\<lambda>j. Fin (to_double (of_int (Occupancy (df ! j)) / of_int (Capacity (df ! j))))) ?N"
    by (rule map_cong) (simp_all add: spec_snapshot_def freeze_row_def)
  have own: "snap_demand_price (spec_snapshot df ! index) = DemandPrice (df ! index)"
    using assms by (simp add: spec_snapshot_def freeze_row_def)
  show ?thesis
    unfolding f spec_competitive_policy_def q own Let_def p o adjust_price_def
    by (simp add: comp_def)
qed

lemma competitive_price_snapshot:
  assumes "index < length df" and "\<forall>r \<in> set df. Capacity r \<noteq> 0"
  shows "competitive_price index df 1 = Inr (spec_competitive_policy (spec_snapshot df) index)"
proof -
  have caps: "\<forall>(j, r) \<in> set (enumerate 0 df). Capacity r \<noteq> 0"
    using assms(2) by (auto simp: enumerate_eq_zip dest: set_zip_rightD)
  show ?thesis
    unfolding competitive_price_def Let_def
    using assms(1) by (simp add: neighbors_loop_filter [OF caps] adjust_price_snapshot)
qed

lemma competitive_prices_snapshot:
  assumes "\<forall>r \<in> set df. Capacity r \<noteq> 0"
  shows "set order \<subseteq> {0..<length df} \<Longrightarrow>
         competitive_prices order df = Inr (map (spec_competitive_policy (spec_snapshot df)) order)"
  by (induction order) (simp_all add: competitive_price_snapshot assms)

lemma freeze_row_update: "freeze_row (r\<lparr>CompetitivePrice := v\<rparr>) = freeze_row r"
  by (simp add: freeze_row_def)

lemma spec_snapshot_update:
  "spec_snapshot (t[i := (t ! i)\<lparr>CompetitivePrice := v\<rparr>]) = spec_snapshot t"
proof (cases "i < length t")
  case True
  then show ?thesis
    by (simp add: spec_snapshot_def map_update freeze_row_update list_update_same_conv)
next
  case False
  then show ?thesis by (simp add: list_update_beyond)
qed

lemma capacity_update:
  "\<forall>r \<in> set t. Capacity r \<noteq> 0 \<Longrightarrow>
   \<forall>r \<in> set (t[i := (t ! i)\<lparr>CompetitivePrice := v\<rparr>]). Capacity r \<noteq> 0"
proof (cases "i < length t")
  case True
  assume "\<forall>r \<in> set t. Capacity r \<noteq> 0"
  with True show ?thesis by (auto simp: set_conv_nth nth_list_update)
next
  case False
  assume "\<forall>r \<in> set t. Capacity r \<noteq> 0"
  with False show ?thesis by (simp add: list_update_beyond)
qed

lemma row_by_row_nth:
  "\<forall>r \<in> set t. Capacity r \<noteq> 0 \<Longrightarrow> set order \<subseteq> {0..<length t} \<Longrightarrow>
   \<exists>t'. row_by_row order t = Inr t' \<and> length t' = length t \<and>
        (\<forall>j < length t. t' ! j =
           (if j \<in> set order
            then (t ! j)\<lparr>CompetitivePrice := Some (spec_competitive_policy (spec_snapshot t) j)\<rparr>
            else t ! j))"
proof (induction order arbitrary: t)
  case Nil
  show ?case by simp
next
  case (Cons i order)
  let ?p = "spec_competitive_policy (spec_snapshot t) i"
  let ?t = "t[i := (t ! i)\<lparr>CompetitivePrice := Some ?p\<rparr>]"
  from Cons.prems have i: "i < length t" and sub: "set order \<subseteq> {0..<length ?t}" by simp_all
  have caps: "\<forall>r \<in> set ?t. Capacity r \<noteq> 0" using Cons.prems(1) by (rule capacity_update)
  from Cons.IH [OF caps sub] obtain t' where
    run: "row_by_row order ?t = Inr t'" and len: "length t' = length ?t" and
    nth: "\<forall>j < length ?t. t' ! j =
           (if j \<in> set order
            then (?t ! j)\<lparr>CompetitivePrice := Some (spec_competitive_policy (spec_snapshot ?t) j)\<rparr>
            else ?t ! j)"
    by blast
  have step: "row_by_row (i # order) t = Inr t'"
    using run by (simp add: competitive_price_snapshot [OF i Cons.prems(1)])
  have "\<forall>j < length t. t' ! j =
           (if j \<in> set (i # order)
            then (t ! j)\<lparr>CompetitivePrice := Some (spec_competitive_policy (spec_snapshot t) j)\<rparr>
            else t ! j)"
  proof (intro allI impI)
    fix j assume j: "j < length t"
    with nth have "t' ! j =
           (if j \<in> set order
            then (?t ! j)\<lparr>CompetitivePrice := Some (spec_competitive_policy (spec_snapshot t) j)\<rparr>
            else ?t ! j)"
      by (simp add: spec_snapshot_update)
    then show "t' ! j =
           (if j \<in> set (i # order)
            then (t ! j)\<lparr>CompetitivePrice := Some (spec_competitive_policy (spec_snapshot t) j)\<rparr>
            else t ! j)"
      using i j by (cases "i = j") (simp_all add: nth_list_update)
  qed
  with step len show ?case by simp
qed

lemma assign_competitive_price_nth:
  "length ps = length df \<Longrightarrow> j < length df \<Longrightarrow>
   assign_competitive_price df ps ! j = (df ! j)\<lparr>CompetitivePrice := Some (ps ! j)\<rparr>"
  by (simp add: assign_competitive_price_def)

lemma row_by_row_two_phase:
  assumes "\<forall>r \<in> set df. Capacity r \<noteq> 0" and "set order = {0..<length df}"
  shows "row_by_row order df = Inr (assign_competitive_price df (spec_two_phase df))"
proof -
  from assms have "set order \<subseteq> {0..<length df}" by simp
  from row_by_row_nth [OF assms(1) this] obtain t' where
    run: "row_by_row order df = Inr t'" and len: "length t' = length df" and
    nth: "\<forall>j < length df. t' ! j =
           (if j \<in> set order
            then (df ! j)\<lparr>CompetitivePrice := Some (spec_competitive_policy (spec_snapshot df) j)\<rparr>
            else df ! j)"
    by blast
  have "t' = assign_competitive_price df (spec_two_phase df)"
  proof (rule nth_equalityI)
    show "length t' = length (assign_competitive_price df (spec_two_phase df))"
      using len by (simp add: assign_competitive_price_def spec_two_phase_def)
  next
    fix j assume "j < length t'"
    with len have j: "j < length df" by simp
    with assms(2) have "j \<in> set order" by simp
    with nth j have "t' ! j = (df ! j)\<lparr>CompetitivePrice := Some (spec_competitive_policy (spec_snapshot df) j)\<rparr>"
      by simp
    also have "\<dots> = assign_competitive_price df (spec_two_phase df) ! j"
      using j by (simp add: assign_competitive_price_nth spec_two_phase_def)
    finally show "t' ! j = assign_competitive_price df (spec_two_phase df) ! j" .
  qed
  with run show ?thesis by simp
qed

lemma competitive_price_column_two_phase:
  assumes "\<forall>r \<in> set df. Capacity r \<noteq> 0"
  shows "competitive_price_column df = Inr (spec_two_phase df)"
  unfolding competitive_price_column_def spec_two_phase_def Let_def
  by (rule competitive_prices_snapshot [OF assms]) simp

lemma spec_two_phase_cong:
  assumes "spec_snapshot df' = spec_snapshot df"
  shows "spec_two_phase df' = spec_two_phase df"
proof -
  have "length (spec_snapshot df') = length (spec_snapshot df)" using assms by simp
  then have "length df' = length df" by (simp add: spec_snapshot_def)
  with assms show ?thesis by (simp add: spec_two_phase_def)
qed

subsection \<open>Evaluation of concrete prices\<close>

lemmas to_double_eval =
  to_double_binade [of _ "- 10"] to_double_binade [of _ "- 9"] to_double_binade [of _ "- 8"]
  to_double_binade [of _ "- 7"] to_double_binade [of _ "- 6"] to_double_binade [of _ "- 5"]
  to_double_binade [of _ "- 4"] to_double_binade [of _ "- 3"] to_double_binade [of _ "- 2"]
  to_double_binade [of _ "- 1"] to_double_binade [of _ 0] to_double_binade [of _ 1]
  to_double_binade [of _ 2] to_double_binade [of _ 3] to_double_binade [of _ 4]
  to_double_binade [of _ 5] to_double_binade [of _ 6] to_double_binade [of _ 7]

lemma linear_pricing_model_Inr:
  "capacity \<noteq> 0 \<Longrightarrow>
   linear_pricing_model occupancy capacity base_price alpha =
     Inr (py_round (to_double (base_price + to_double (alpha * to_double (occupancy / capacity)))) 2)"
  by (simp add: linear_pricing_model_def truediv_def)

lemma linear_pricing_model_zero:
  "linear_pricing_model occupancy 0 base_price alpha = Inl ZeroDivisionError"
  by (simp add: linear_pricing_model_def truediv_def)

lemma np_mean_1: "np_mean [a] = fdiv (fadd (Fin 0) a) (Fin 1)"
  by (simp add: np_mean_def pairwise_sum.simps [of "[a]"])

lemma np_mean_2: "np_mean [a, b] = fdiv (fadd (fadd (Fin 0) a) b) (Fin 2)"
  by (simp add: np_mean_def pairwise_sum.simps [of "[a, b]"])

lemma np_mean_4:
  "np_mean [a, b, c, d] = fdiv (fadd (fadd (fadd (fadd (Fin 0) a) b) c) d) (Fin 4)"
  by (simp add: np_mean_def pairwise_sum.simps [of "[a, b, c, d]"])

lemma np_mean_8:
  "np_mean [a0, a1, a2, a3, a4, a5, a6, a7] =
     fdiv (fadd (fadd (fadd a0 a1) (fadd a2 a3)) (fadd (fadd a4 a5) (fadd a6 a7))) (Fin 8)"
  by (simp add: np_mean_def pairwise_sum.simps [of "[a0, a1, a2, a3, a4, a5, a6, a7]"]
      add_blocks.simps [of _ "[]"] Let_def)

lemma linear_price_column_Inr:
  "\<forall>r \<in> set batch. Capacity r \<noteq> 0 \<Longrightarrow>
   linear_price_column batch =
     Inr (map (\<lambda>r. py_round (to_double (10 + to_double (5 * to_double
                      (of_int (Occupancy r) / of_int (Capacity r))))) 2) batch)"
  by (induction batch) (simp_all add: linear_pricing_model_default_def linear_pricing_model_Inr)

lemma linear_price_column_Inl:
  "\<exists>r \<in> set batch. Capacity r = 0 \<Longrightarrow> linear_price_column batch = Inl ZeroDivisionError"
proof (induction batch)
  case Nil
  then show ?case by simp
next
  case (Cons r rs)
  show ?case
  proof (cases "Capacity r = 0")
    case True
    then show ?thesis
      by (simp add: linear_pricing_model_default_def linear_pricing_model_zero)
  next
    case False
    with Cons.prems have "\<exists>r \<in> set rs. Capacity r = 0" by simp
    then have "linear_price_column rs = Inl ZeroDivisionError" by (rule Cons.IH)
    with False show ?thesis
      by (simp add: linear_pricing_model_default_def linear_pricing_model_Inr)
  qed
qed

lemma vehicle_type_encoded_NaN:
  "vehicle_type_encoded v = NaN \<longleftrightarrow> v \<notin> {''car'', ''bike'', ''truck''}"
  by (simp add: vehicle_type_encoded_def vehicle_type_dict_def series_map_def)

lemma traffic_condition_encoded_NaN:
  "traffic_condition_encoded t = NaN \<longleftrightarrow> t \<notin> {''low'', ''medium'', ''high''}"
  by (simp add: traffic_condition_encoded_def traffic_condition_dict_def series_map_def)

lemma assign_demand_price_simps:
  "length (assign_demand_price df) = length df"
  "index < length df \<Longrightarrow>
     DemandPrice (assign_demand_price df ! index) = demand_based_price_default (df ! index)"
  "(\<forall>r \<in> set (assign_demand_price df). Capacity r \<noteq> 0) = (\<forall>r \<in> set df. Capacity r \<noteq> 0)"
  by (simp_all add: assign_demand_price_def)

lemma py_round_ge_pow2:
  assumes "2 ^ n \<le> x"
  shows "2 ^ n \<le> py_round x 2"
proof -
  have "of_int (2 ^ n * 100) \<le> x * 100" using assms by simp
  then have "2 ^ n * 100 \<le> round_half_even (x * 100)" by (rule round_half_even_lower)
  then have "(of_int (2 ^ n * 100) :: real) \<le> of_int (round_half_even (x * 100))"
    by (simp only: of_int_le_iff)
  then have "2 ^ n \<le> of_int (round_half_even (x * 100)) / (100::real)" by simp
  from to_double_mono [OF this] show ?thesis by (simp add: py_round_def to_double_pow2)
qed

lemma linear_unbounded: "\<exists>occupancy p. linear_pricing_model_default occupancy 1 = Inr p \<and> B < p"
proof -
  obtain n :: nat where n: "B < 2 ^ n" using real_arch_pow [of 2 B] by auto
  have a: "to_double (2 ^ n / 1) = 2 ^ n" by (simp add: to_double_pow2)
  have "(2::real) ^ n \<le> 5 * 2 ^ n" by simp
  from to_double_mono [OF this] have b: "2 ^ n \<le> to_double (5 * 2 ^ n)"
    by (simp add: to_double_pow2)
  then have "(2::real) ^ n \<le> 10 + to_double (5 * 2 ^ n)" by simp
  from to_double_mono [OF this] have "2 ^ n \<le> to_double (10 + to_double (5 * 2 ^ n))"
    by (simp add: to_double_pow2)
  then have "2 ^ n \<le> py_round (to_double (10 + to_double (5 * 2 ^ n))) 2"
    by (rule py_round_ge_pow2)
  moreover have "linear_pricing_model_default (2 ^ n) 1 =
      Inr (py_round (to_double (10 + to_double (5 * 2 ^ n))) 2)"
    using a by (simp add: linear_pricing_model_default_def linear_pricing_model_Inr)
  ultimately have "linear_pricing_model_default (2 ^ n) 1 =
      Inr (py_round (to_double (10 + to_double (5 * 2 ^ n))) 2) \<and>
      B < py_round (to_double (10 + to_double (5 * 2 ^ n))) 2"
    using n by simp
  then show ?thesis by blast
qed

section \<open>The claims\<close>

text \<open>
  Claim C1. The competitive prices of the notebook are computed from the demand-price
  columns alone: for every frame whose capacities are not zero, the column built by
  \<^verbatim>\<open>[competitive_price(i, df) for i in range(len(df))]\<close> is the result of the two-phase
  computation over the frozen snapshot; pricing the rows one at a time in any order that
  visits every row, each price written into the table before the next row is priced, gives
  the same column; and two frames with the same snapshot get the same column.
\<close>

theorem competitive_column_is_two_phase:
  assumes "\<forall>r \<in> set df. Capacity r \<noteq> 0" and "set order = {0..<length df}"
  shows "competitive_price_column df = Inr (spec_two_phase df) \<and>
         row_by_row order df = Inr (assign_competitive_price df (spec_two_phase df)) \<and>
         (\<forall>df'. spec_snapshot df' = spec_snapshot df \<and> (\<forall>r \<in> set df'. Capacity r \<noteq> 0) \<longrightarrow>
                competitive_price_column df' = competitive_price_column df)"
proof (intro conjI allI impI)
  show "competitive_price_column df = Inr (spec_two_phase df)"
    using assms(1) by (rule competitive_price_column_two_phase)
  show "row_by_row order df = Inr (assign_competitive_price df (spec_two_phase df))"
    using assms by (rule row_by_row_two_phase)
next
  fix df' assume h: "spec_snapshot df' = spec_snapshot df \<and> (\<forall>r \<in> set df'. Capacity r \<noteq> 0)"
  then have "competitive_price_column df' = Inr (spec_two_phase df')"
    by (simp add: competitive_price_column_two_phase)
  also have "\<dots> = Inr (spec_two_phase df)" using h spec_two_phase_cong [of df' df] by simp
  also have "\<dots> = competitive_price_column df"
    using assms(1) by (simp add: competitive_price_column_two_phase)
  finally show "competitive_price_column df' = competitive_price_column df" .
qed

theorem competitive_column_is_two_phase_witness:
  "Capacity (scenario_row 12 50 100 0 0) \<noteq> 0 \<and> Capacity (scenario_row 15 95 100 0 0) \<noteq> 0 \<and>
   set [1, 0] = {0..<length [scenario_row 12 50 100 0 0, scenario_row 15 95 100 0 0]} \<and>
   competitive_price_column [scenario_row 12 50 100 0 0, scenario_row 15 95 100 0 0]
     = Inr [Fin 13, Fin 14] \<and>
   spec_two_phase [scenario_row 12 50 100 0 0, scenario_row 15 95 100 0 0] = [Fin 13, Fin 14] \<and>
   row_by_row [1, 0] [scenario_row 12 50 100 0 0, scenario_row 15 95 100 0 0]
     = Inr (assign_competitive_price [scenario_row 12 50 100 0 0, scenario_row 15 95 100 0 0]
             [Fin 13, Fin 14])"
proof -
  let ?df = "[scenario_row 12 50 100 0 0, scenario_row 15 95 100 0 0]"
  have caps: "\<forall>r \<in> set ?df. Capacity r \<noteq> 0" by (simp add: scenario_row_simps)
  have ord: "set [1, 0] = {0..<length ?df}" by auto
  have p0: "competitive_price 0 ?df 1 = Inr (Fin 13)"
    by (simp add: competitive_price_def scenario_row_simps haversine_self truediv_def
        adjust_price_def np_mean_1 to_double_eval round_half_even_def)
  have p1: "competitive_price (Suc 0) ?df 1 = Inr (Fin 14)"
    by (simp add: competitive_price_def scenario_row_simps haversine_self truediv_def
        adjust_price_def np_mean_1 to_double_eval round_half_even_def)
  have col: "competitive_price_column ?df = Inr [Fin 13, Fin 14]"
    by (simp add: competitive_price_column_def upt_rec p0 p1)
  from competitive_column_is_two_phase [OF caps ord] col
  have two: "spec_two_phase ?df = [Fin 13, Fin 14]"
    and run: "row_by_row [1, 0] ?df = Inr (assign_competitive_price ?df [Fin 13, Fin 14])"
    by simp_all
  from col two run ord show ?thesis by (simp add: scenario_row_simps)
qed

text \<open>
  Claim C2, the notebook's behaviour against the claimed rule. A lot at demand price 12
  has two neighbours within the radius, both at demand price 15, with occupancy 34 of 50
  and 56 of 50. The mean occupancy rate is exactly 0.9, which does not exceed 0.9, and the
  mean price is not below 12, so the claimed rule keeps the price at 12. The notebook
  returns 13: in double arithmetic the mean of the two rates is above the double 0.9.
  The same happens with four neighbours at occupancy 98, 91, 91 and 80 of 100.
\<close>

theorem tie_mean_occupancy_raises_price:
  "competitive_price 0
     [scenario_row 12 50 100 0 0, scenario_row 15 34 50 0 0, scenario_row 15 56 50 0 0] 1
     = Inr (Fin 13) \<and>
   exact_mean [34 / 50, 56 / 50] = 9 / 10 \<and>
   exact_competitive_rule 12 [(15, 34 / 50), (15, 56 / 50)] = 12 \<and>
   competitive_price 0
     [scenario_row 12 50 100 0 0, scenario_row 15 98 100 0 0, scenario_row 15 91 100 0 0,
      scenario_row 15 91 100 0 0, scenario_row 15 80 100 0 0] 1
     = Inr (Fin 13) \<and>
   exact_mean [98 / 100, 91 / 100, 91 / 100, 80 / 100] = 9 / 10 \<and>
   exact_competitive_rule 12
     [(15, 98 / 100), (15, 91 / 100), (15, 91 / 100), (15, 80 / 100)] = 12"
  by (simp add: competitive_price_def scenario_row_simps haversine_self truediv_def
      adjust_price_def np_mean_2 np_mean_4 to_double_eval round_half_even_def
      exact_competitive_rule_def exact_mean_def)

text \<open>
  Claim C2, amended. For a row of the frame, all capacities being non-zero, the
  competitive price follows the decision rule on means that are computed in double
  arithmetic as \<^verbatim>\<open>np.mean\<close> computes them, the threshold being the double nearest 0.9: with
  no other row within 1.0 km it is the own demand price; with the neighbours' mean
  occupancy rate above 0.9 and their mean demand price above the own price it is
  \<open>min(own_price + 1, 20)\<close>; otherwise, with their mean demand price below the own price,
  it is \<open>max(own_price - 1, 5)\<close>; otherwise the own price. A lot at demand price 12 with
  one in-radius neighbour at demand price 15 and occupancy rate 0.95 gets 13; with the
  neighbour at demand price 10 it gets 11; with the neighbour at demand price 15 and
  occupancy rate 0.9, or at demand price 12, it keeps 12; a lot at 19.5 is raised to the
  cap 20 and a lot at 5.5 is lowered to the cap 5; with two neighbours at 10 and 16 and
  occupancy rates 0.95 and 0.99 it gets 13; a lot at 13.13 with neighbours at 11.32 and
  14.94 gets 12.13; a lot at 10.09 with eight neighbours at 10.09 keeps 10.09.
\<close>

theorem competitive_price_follows_rule:
  "(index < length df \<and> (\<forall>r \<in> set df. Capacity r \<noteq> 0) \<longrightarrow>
   (let own_price = DemandPrice (df ! index);
        neighbors = filter (\<lambda>j. j \<noteq> index \<and>
                        haversine (Latitude (df ! index)) (Longitude (df ! index))
                                  (Latitude (df ! j)) (Longitude (df ! j)) \<le> 1)
                      [0..<length df];
        avg_price = np_mean (map (\<lambda>j. DemandPrice (df ! j)) neighbors);
        avg_occ = np_mean (map (\<lambda>j. Fin (to_double
                      (of_int (Occupancy (df ! j)) / of_int (Capacity (df ! j))))) neighbors)
    in competitive_price index df 1 =
         Inr (if neighbors = [] then own_price
              else if lt (Fin (to_double (9 / 10))) avg_occ \<and> lt own_price avg_price
                then py_min (fadd own_price (Fin 1)) (Fin 20)
              else if lt avg_price own_price then py_max (fsub own_price (Fin 1)) (Fin 5)
              else own_price))) \<and>
   competitive_price 0 [scenario_row 12 50 100 0 0, scenario_row 15 95 100 0 0] 1
     = Inr (Fin 13) \<and>
   competitive_price 0 [scenario_row 12 50 100 0 0, scenario_row 10 95 100 0 0] 1
     = Inr (Fin 11) \<and>
   competitive_price 0 [scenario_row 12 50 100 0 0, scenario_row 15 90 100 0 0] 1
     = Inr (Fin 12) \<and>
   competitive_price 0 [scenario_row 12 50 100 0 0, scenario_row 12 95 100 0 0] 1
     = Inr (Fin 12) \<and>
   competitive_price 0 [scenario_row (195 / 10) 50 100 0 0, scenario_row 20 95 100 0 0] 1
     = Inr (Fin 20) \<and>
   competitive_price 0 [scenario_row (55 / 10) 50 100 0 0, scenario_row 5 95 100 0 0] 1
     = Inr (Fin 5) \<and>
   competitive_price 0
     [scenario_row 12 50 100 0 0, scenario_row 10 95 100 0 0, scenario_row 16 99 100 0 0] 1
     = Inr (Fin 13) \<and>
   competitive_price 0
     [scenario_row (1313 / 100) 50 100 0 0, scenario_row (1132 / 100) 50 100 0 0,
      scenario_row (1494 / 100) 50 100 0 0] 1
     = Inr (Fin (to_double (1213 / 100))) \<and>
   competitive_price 0
     [scenario_row (1009 / 100) 50 100 0 0,
      scenario_row (1009 / 100) 95 100 0 0, scenario_row (1009 / 100) 95 100 0 0,
      scenario_row (1009 / 100) 95 100 0 0, scenario_row (1009 / 100) 95 100 0 0,
      scenario_row (1009 / 100) 95 100 0 0, scenario_row (1009 / 100) 95 100 0 0,
      scenario_row (1009 / 100) 95 100 0 0, scenario_row (1009 / 100) 95 100 0 0] 1
     = Inr (Fin (to_double (1009 / 100)))"
proof (intro conjI impI)
  assume "index < length df \<and> (\<forall>r \<in> set df. Capacity r \<noteq> 0)"
  then show "let own_price = DemandPrice (df ! index);
        neighbors = filter (\<lambda>j. j \<noteq> index \<and>
                        haversine (Latitude (df ! index)) (Longitude (df ! index))
                                  (Latitude (df ! j)) (Longitude (df ! j)) \<le> 1)
                      [0..<length df];
        avg_price = np_mean (map (\<lambda>j. DemandPrice (df ! j)) neighbors);
        avg_occ = np_mean (map (\<lambda>j. Fin (to_double
                      (of_int (Occupancy (df ! j)) / of_int (Capacity (df ! j))))) neighbors)
    in competitive_price index df 1 =
         Inr (if neighbors = [] then own_price
              else if lt (Fin (to_double (9 / 10))) avg_occ \<and> lt own_price avg_price
                then py_min (fadd own_price (Fin 1)) (Fin 20)
              else if lt avg_price own_price then py_max (fsub own_price (Fin 1)) (Fin 5)
              else own_price)"
    by (simp add: competitive_price_adjust adjust_price_def Let_def comp_def)
qed (simp_all add: competitive_price_def scenario_row_simps haversine_self truediv_def
      adjust_price_def np_mean_1 np_mean_2 np_mean_8 to_double_eval round_half_even_def)

theorem competitive_price_follows_rule_witness:
  "0 < length [scenario_row 12 50 100 0 0, scenario_row 15 95 100 0 180] \<and>
   Capacity (scenario_row 12 50 100 0 0) \<noteq> 0 \<and> Capacity (scenario_row 15 95 100 0 180) \<noteq> 0 \<and>
   competitive_price 0 [scenario_row 12 50 100 0 0, scenario_row 15 95 100 0 180] 1
     = Inr (Fin 12)"
proof -
  let ?df = "[scenario_row 12 50 100 0 0, scenario_row 15 95 100 0 180]"
  have len: "0 < length ?df" by simp
  have caps: "\<forall>r \<in> set ?df. Capacity r \<noteq> 0" by (simp add: scenario_row_simps)
  have up: "[0..<length ?df] = [0, Suc 0]" by (simp add: upt_rec)
  from competitive_price_follows_rule [of 0 ?df, THEN conjunct1] len caps have
    "competitive_price 0 ?df 1 = Inr (Fin 12)"
    unfolding up using haversine_far
    by (simp add: Let_def scenario_row_simps haversine_self to_double_eval)
  with len show ?thesis by (simp add: scenario_row_simps)
qed

text \<open>
  Claim C3, the notebook against the claimed formula. A row with normalised occupancy 0,
  normalised queue length 0.09, traffic encoding 0, vehicle encoding 1.5 and no special
  day is priced at 10.64 by the notebook. The claimed formula, evaluated exactly on the
  same feature values, is \<open>10 * (1 + 0.5 * (0.3 * q + 0.1))\<close> with \<open>q\<close> the double nearest
  0.09, which lies below 10.635 and rounds to 10.63.
\<close>

theorem demand_price_off_by_a_cent:
  "demand_based_price_default
     (feature_row (Fin 0) (Fin (to_double (9 / 100))) (Fin 0) (Fin (15 / 10)) (Fin 0))
     = Fin (to_double (1064 / 100)) \<and>
   exact_demand_price (exact_demand_score 0 (to_double (9 / 100)) 0 (15 / 10) 0) 10 (5 / 10)
     = 1063 / 100 \<and>
   to_double (1064 / 100) \<noteq> to_double (1063 / 100)"
  by (simp add: demand_based_price_default_def demand_based_price_def demand_score_def
      weighted_sum_def feature_row_def py_round_def Let_def
      exact_demand_price_def exact_demand_score_def exact_round2_def
      to_double_eval round_half_even_def)

text \<open>
  Claim C3, amended. For every row whose five features are numbers, the demand price is
  the claimed formula evaluated in double arithmetic in the order in which the notebook
  writes it: the weights are the doubles nearest 0.4, 0.3, 0.1, 0.1, 0.1, every product,
  quotient and sum is rounded to the nearest double, the sum is taken from left to right
  with \<open>(0.1 * traffic) / 2\<close> and \<open>(0.1 * vehicle) / 1.5\<close>, the score is clamped to
  \<open>[0, 1]\<close>, the price \<open>base_price * (1 + lambda * demand)\<close> is clamped to \<open>[5, 20]\<close>
  and rounded to two decimals, half to even on the exact value of the double. The
  defaults are \<open>base_price = 10.0\<close> and \<open>lambda = 0.5\<close>. Normalised occupancy 0.5,
  normalised queue 0.2, traffic medium (1), vehicle car (1.0) and no special day give
  11.88, which is also the value of the exact formula; all features at their maximum give
  15 and all at zero give 10; normalised queue 0.01, traffic 1 and vehicle 1.5 give
  10.77; vehicle 0.5 alone gives 10.17; a negative weighted sum is clamped to the score 0
  and gives 10; base prices 30 and 2 give the bounds 20 and 5.
\<close>

theorem demand_price_matches_formula:
  "(NormalizedOccupancyRate r = Fin normalized_occupancy \<and>
    NormalizedQueueLength r = Fin normalized_queue \<and>
    TrafficConditionEncoded r = Fin traffic_encoding \<and>
    VehicleTypeEncoded r = Fin vehicle_encoding \<and>
    IsSpecialDay r = Fin is_special_day \<longrightarrow>
    (let weighted =
          to_double (to_double (to_double (to_double
              (to_double (to_double (4 / 10) * normalized_occupancy)
               + to_double (to_double (3 / 10) * normalized_queue))
             + to_double (to_double (to_double (1 / 10) * traffic_encoding) / 2))
            + to_double (to_double (to_double (1 / 10) * vehicle_encoding) / (15 / 10)))
           + to_double (to_double (1 / 10) * is_special_day));
         demand = min (max weighted 0) 1
     in demand_score r = Fin demand \<and>
        demand_based_price r base_price lambd =
          Fin (py_round (min (max (to_double (base_price *
                 to_double (1 + to_double (lambd * demand)))) 5) 20) 2))) \<and>
   demand_based_price_default r = demand_based_price r 10 (5 / 10) \<and>
   demand_based_price_default
     (feature_row (Fin (5 / 10)) (Fin (to_double (2 / 10))) (Fin 1) (Fin 1) (Fin 0))
     = Fin (to_double (1188 / 100)) \<and>
   exact_demand_price (exact_demand_score (5 / 10) (to_double (2 / 10)) 1 1 0) 10 (5 / 10)
     = 1188 / 100 \<and>
   demand_based_price_default (feature_row (Fin 1) (Fin 1) (Fin 2) (Fin (15 / 10)) (Fin 1))
     = Fin 15 \<and>
   demand_based_price_default (feature_row (Fin 0) (Fin 0) (Fin 0) (Fin 0) (Fin 0))
     = Fin 10 \<and>
   demand_based_price_default
     (feature_row (Fin 0) (Fin (to_double (1 / 100))) (Fin 1) (Fin (15 / 10)) (Fin 0))
     = Fin (to_double (1077 / 100)) \<and>
   demand_based_price_default
     (feature_row (Fin 0) (Fin 0) (Fin 0) (Fin (5 / 10)) (Fin 0))
     = Fin (to_double (1017 / 100)) \<and>
   demand_based_price_default
     (feature_row (Fin (- 3)) (Fin 0) (Fin 0) (Fin (5 / 10)) (Fin 0))
     = Fin 10 \<and>
   demand_based_price
     (feature_row (Fin (5 / 10)) (Fin (to_double (2 / 10))) (Fin 1) (Fin 1) (Fin 0)) 30 (5 / 10)
     = Fin 20 \<and>
   demand_based_price
     (feature_row (Fin (5 / 10)) (Fin (to_double (2 / 10))) (Fin 1) (Fin 1) (Fin 0)) 2 (5 / 10)
     = Fin 5"
proof (intro conjI impI)
  assume "NormalizedOccupancyRate r = Fin normalized_occupancy \<and>
    NormalizedQueueLength r = Fin normalized_queue \<and>
    TrafficConditionEncoded r = Fin traffic_encoding \<and>
    VehicleTypeEncoded r = Fin vehicle_encoding \<and>
    IsSpecialDay r = Fin is_special_day"
  then show "let weighted =
          to_double (to_double (to_double (to_double
              (to_double (to_double (4 / 10) * normalized_occupancy)
               + to_double (to_double (3 / 10) * normalized_queue))
             + to_double (to_double (to_double (1 / 10) * traffic_encoding) / 2))
            + to_double (to_double (to_double (1 / 10) * vehicle_encoding) / (15 / 10)))
           + to_double (to_double (1 / 10) * is_special_day));
         demand = min (max weighted 0) 1
     in demand_score r = Fin demand \<and>
        demand_based_price r base_price lambd =
          Fin (py_round (min (max (to_double (base_price *
                 to_double (1 + to_double (lambd * demand)))) 5) 20) 2)"
    by (simp add: demand_based_price_def demand_score_def weighted_sum_def Let_def)
next
  show "demand_based_price_default r = demand_based_price r 10 (5 / 10)"
    by (simp add: demand_based_price_default_def)
qed (simp_all add: demand_based_price_default_def demand_based_price_def demand_score_def
      weighted_sum_def feature_row_def py_round_def Let_def
      exact_demand_price_def exact_demand_score_def exact_round2_def
      to_double_eval round_half_even_def)

theorem demand_price_matches_formula_witness:
  "NormalizedOccupancyRate (feature_row (Fin 0) (Fin 0) (Fin 1) (Fin 0) (Fin 0)) = Fin 0 \<and>
   NormalizedQueueLength (feature_row (Fin 0) (Fin 0) (Fin 1) (Fin 0) (Fin 0)) = Fin 0 \<and>
   TrafficConditionEncoded (feature_row (Fin 0) (Fin 0) (Fin 1) (Fin 0) (Fin 0)) = Fin 1 \<and>
   VehicleTypeEncoded (feature_row (Fin 0) (Fin 0) (Fin 1) (Fin 0) (Fin 0)) = Fin 0 \<and>
   IsSpecialDay (feature_row (Fin 0) (Fin 0) (Fin 1) (Fin 0) (Fin 0)) = Fin 0 \<and>
   demand_score (feature_row (Fin 0) (Fin 0) (Fin 1) (Fin 0) (Fin 0))
     = Fin (to_double (5 / 100)) \<and>
   demand_based_price (feature_row (Fin 0) (Fin 0) (Fin 1) (Fin 0) (Fin 0)) 10 (5 / 10)
     = Fin (to_double (1025 / 100)) \<and>
   demand_based_price_default (feature_row (Fin 0) (Fin 0) (Fin 1) (Fin 0) (Fin 0))
     = Fin (to_double (1025 / 100))"
proof -
  let ?r = "feature_row (Fin 0) (Fin 0) (Fin 1) (Fin 0) (Fin 0)"
  let ?weighted =
    "to_double (to_double (to_double (to_double
              (to_double (to_double (4 / 10) * 0)
               + to_double (to_double (3 / 10) * 0))
             + to_double (to_double (to_double (1 / 10) * 1) / 2))
            + to_double (to_double (to_double (1 / 10) * 0) / (15 / 10)))
           + to_double (to_double (1 / 10) * 0))"
  let ?demand = "min (max ?weighted 0) 1"
  have f: "NormalizedOccupancyRate ?r = Fin 0 \<and> NormalizedQueueLength ?r = Fin 0 \<and>
    TrafficConditionEncoded ?r = Fin 1 \<and> VehicleTypeEncoded ?r = Fin 0 \<and>
    IsSpecialDay ?r = Fin 0"
    by (simp add: feature_row_def)
  note formula = demand_price_matches_formula
    [where r = ?r and normalized_occupancy = 0 and normalized_queue = 0
       and traffic_encoding = 1 and vehicle_encoding = 0 and is_special_day = 0
       and base_price = 10 and lambd = "5 / 10", unfolded Let_def]
  note general = formula [THEN conjunct1, THEN mp, OF f]
  have "demand_score ?r = Fin ?demand"
    using general by (rule conjunct1)
  also have "?demand = to_double (5 / 100)"
    by (simp add: to_double_eval round_half_even_def)
  finally have s: "demand_score ?r = Fin (to_double (5 / 100))" .
  have "demand_based_price ?r 10 (5 / 10) =
      Fin (py_round (min (max (to_double (10 *
                to_double (1 + to_double (5 / 10 * ?demand)))) 5) 20) 2)"
    using general by (rule conjunct2)
  also have "py_round (min (max (to_double (10 *
                to_double (1 + to_double (5 / 10 * ?demand)))) 5) 20) 2
      = to_double (1025 / 100)"
    by (simp add: py_round_def to_double_eval round_half_even_def)
  finally have p: "demand_based_price ?r 10 (5 / 10) = Fin (to_double (1025 / 100))" .
  have "demand_based_price_default ?r = demand_based_price ?r 10 (5 / 10)"
    using formula by (rule conjunct1 [OF conjunct2])
  with p have d: "demand_based_price_default ?r = Fin (to_double (1025 / 100))" by simp
  from f s p d show ?thesis by (intro conjI) simp_all
qed

text \<open>
  Claim C4, the notebook against the claimed range. The preprocessing turns a vehicle
  type that is not a key of the encoding dict into NaN; the demand price of such a row
  is NaN, which lies in no interval.
\<close>

theorem unknown_vehicle_type_prices_nan:
  "map DemandPrice (assign_demand_price (assign_encodings
     [(feature_row (Fin (5 / 10)) (Fin (to_double (2 / 10))) (Fin 1) (Fin 1) (Fin 0))
        \<lparr>VehicleType := ''cycle''\<rparr>])) = [NaN] \<and>
   (\<nexists>p. demand_based_price_default
          (feature_row (Fin (5 / 10)) (Fin (to_double (2 / 10))) (Fin 1) NaN (Fin 0)) = Fin p)"
  by (simp add: assign_demand_price_def assign_encodings_def feature_row_def
      vehicle_type_encoded_def vehicle_type_dict_def traffic_condition_encoded_def
      traffic_condition_dict_def series_map_def
      demand_based_price_default_def demand_based_price_def demand_score_def
      weighted_sum_def Let_def)

text \<open>
  Claim C4, amended. For every base price and every lambda, a row whose five features
  are numbers has a demand price in \<open>[5, 20]\<close>, and its demand score lies in \<open>[0, 1]\<close>; a
  row with a NaN feature has the demand price NaN. For every lot whose own demand price
  is a number in \<open>[5, 20]\<close>, capacities being non-zero, the competitive price is a number
  in \<open>[5, 20]\<close>, whatever the radius and the neighbours' prices; a lot whose own
  demand price is NaN has the competitive price NaN. The linear price has no bound: it exceeds every number for
  some occupancy.
\<close>

theorem demand_and_competitive_in_range:
  "(NormalizedOccupancyRate r \<noteq> NaN \<and> NormalizedQueueLength r \<noteq> NaN \<and>
    TrafficConditionEncoded r \<noteq> NaN \<and> VehicleTypeEncoded r \<noteq> NaN \<and> IsSpecialDay r \<noteq> NaN
    \<longrightarrow> (\<exists>d p. demand_score r = Fin d \<and> 0 \<le> d \<and> d \<le> 1 \<and>
               demand_based_price r base_price lambd = Fin p \<and> 5 \<le> p \<and> p \<le> 20)) \<and>
   (NormalizedOccupancyRate r = NaN \<or> NormalizedQueueLength r = NaN \<or>
    TrafficConditionEncoded r = NaN \<or> VehicleTypeEncoded r = NaN \<or> IsSpecialDay r = NaN
    \<longrightarrow> demand_based_price r base_price lambd = NaN) \<and>
   (index < length df \<and> (\<forall>r \<in> set df. Capacity r \<noteq> 0) \<longrightarrow>
      (\<forall>y. DemandPrice (df ! index) = Fin y \<and> 5 \<le> y \<and> y \<le> 20 \<longrightarrow>
         (\<exists>p. competitive_price index df radius_km = Inr (Fin p) \<and> 5 \<le> p \<and> p \<le> 20)) \<and>
      (DemandPrice (df ! index) = NaN \<longrightarrow> competitive_price index df radius_km = Inr NaN)) \<and>
   (\<forall>bound. \<exists>occupancy p. linear_pricing_model_default occupancy 1 = Inr p \<and> bound < p)"
proof (intro conjI impI allI)
  assume "NormalizedOccupancyRate r \<noteq> NaN \<and> NormalizedQueueLength r \<noteq> NaN \<and>
    TrafficConditionEncoded r \<noteq> NaN \<and> VehicleTypeEncoded r \<noteq> NaN \<and> IsSpecialDay r \<noteq> NaN"
  then have "demand_score r \<noteq> NaN"
    by (simp add: demand_score_NaN_iff weighted_sum_NaN_iff)
  then obtain d where d: "demand_score r = Fin d" by (cases "demand_score r") simp_all
  from demand_based_price_range [OF d] obtain p where
    "demand_based_price r base_price lambd = Fin p \<and> 5 \<le> p \<and> p \<le> 20" by blast
  with d demand_score_range [OF d]
  show "\<exists>d p. demand_score r = Fin d \<and> 0 \<le> d \<and> d \<le> 1 \<and>
               demand_based_price r base_price lambd = Fin p \<and> 5 \<le> p \<and> p \<le> 20"
    by blast
next
  assume "NormalizedOccupancyRate r = NaN \<or> NormalizedQueueLength r = NaN \<or>
    TrafficConditionEncoded r = NaN \<or> VehicleTypeEncoded r = NaN \<or> IsSpecialDay r = NaN"
  then have "demand_score r = NaN" by (simp add: demand_score_NaN_iff weighted_sum_NaN_iff)
  then show "demand_based_price r base_price lambd = NaN" by (rule demand_based_price_NaN)
next
  fix y
  assume h: "index < length df \<and> (\<forall>r \<in> set df. Capacity r \<noteq> 0)"
    and y: "DemandPrice (df ! index) = Fin y \<and> 5 \<le> y \<and> y \<le> 20"
  from y adjust_price_range [of y] obtain p where
    "adjust_price (Fin y) (map (\<lambda>j. (DemandPrice (df ! j),
        Fin (to_double (of_int (Occupancy (df ! j)) / of_int (Capacity (df ! j))))))
      (filter (\<lambda>j. j \<noteq> index \<and>
          haversine (Latitude (df ! index)) (Longitude (df ! index))
                    (Latitude (df ! j)) (Longitude (df ! j)) \<le> radius_km) [0..<length df]))
     = Fin p \<and> 5 \<le> p \<and> p \<le> 20" by blast
  with h y show "\<exists>p. competitive_price index df radius_km = Inr (Fin p) \<and> 5 \<le> p \<and> p \<le> 20"
    by (simp add: competitive_price_adjust)
next
  assume h: "index < length df \<and> (\<forall>r \<in> set df. Capacity r \<noteq> 0)"
    and y: "DemandPrice (df ! index) = NaN"
  then show "competitive_price index df radius_km = Inr NaN"
    by (simp add: competitive_price_adjust)
next
  fix bound :: real
  show "\<exists>occupancy p. linear_pricing_model_default occupancy 1 = Inr p \<and> bound < p"
    by (rule linear_unbounded)
qed

theorem demand_and_competitive_in_range_witness:
  "NormalizedOccupancyRate (feature_row (Fin (5 / 10)) (Fin 1) (Fin 1) (Fin 1) (Fin 0)) \<noteq> NaN \<and>
   NormalizedQueueLength (feature_row (Fin (5 / 10)) (Fin 1) (Fin 1) (Fin 1) (Fin 0)) \<noteq> NaN \<and>
   TrafficConditionEncoded (feature_row (Fin (5 / 10)) (Fin 1) (Fin 1) (Fin 1) (Fin 0)) \<noteq> NaN \<and>
   VehicleTypeEncoded (feature_row (Fin (5 / 10)) (Fin 1) (Fin 1) (Fin 1) (Fin 0)) \<noteq> NaN \<and>
   IsSpecialDay (feature_row (Fin (5 / 10)) (Fin 1) (Fin 1) (Fin 1) (Fin 0)) \<noteq> NaN \<and>
   (\<exists>d p. demand_score (feature_row (Fin (5 / 10)) (Fin 1) (Fin 1) (Fin 1) (Fin 0)) = Fin d \<and>
          0 \<le> d \<and> d \<le> 1 \<and>
          demand_based_price (feature_row (Fin (5 / 10)) (Fin 1) (Fin 1) (Fin 1) (Fin 0)) 30 2
            = Fin p \<and> 5 \<le> p \<and> p \<le> 20) \<and>
   demand_based_price (feature_row (Fin (5 / 10)) (Fin 1) (Fin 1) (Fin 1) (Fin 0)) 30 2 = Fin 20 \<and>
   VehicleTypeEncoded (feature_row (Fin (5 / 10)) (Fin 1) (Fin 1) NaN (Fin 0)) = NaN \<and>
   demand_based_price (feature_row (Fin (5 / 10)) (Fin 1) (Fin 1) NaN (Fin 0)) 30 2 = NaN \<and>
   0 < length [scenario_row (195 / 10) 50 100 0 0, scenario_row 20 95 100 0 0] \<and>
   Capacity (scenario_row (195 / 10) 50 100 0 0) \<noteq> 0 \<and>
   Capacity (scenario_row 20 95 100 0 0) \<noteq> 0 \<and>
   DemandPrice ([scenario_row (195 / 10) 50 100 0 0, scenario_row 20 95 100 0 0] ! 0)
     = Fin (195 / 10) \<and>
   (\<exists>p. competitive_price 0 [scenario_row (195 / 10) 50 100 0 0, scenario_row 20 95 100 0 0] 1
          = Inr (Fin p) \<and> 5 \<le> p \<and> p \<le> 20) \<and>
   competitive_price 0 [scenario_row (195 / 10) 50 100 0 0, scenario_row 20 95 100 0 0] 1
     = Inr (Fin 20)"
proof -
  let ?r = "feature_row (Fin (5 / 10)) (Fin 1) (Fin 1) (Fin 1) (Fin 0)"
  let ?n = "feature_row (Fin (5 / 10)) (Fin 1) (Fin 1) NaN (Fin 0)"
  let ?df = "[scenario_row (195 / 10) 50 100 0 0, scenario_row 20 95 100 0 0]"
  note number = demand_and_competitive_in_range
    [where r = ?r and base_price = 30 and lambd = 2 and index = 0 and df = ?df
       and radius_km = 1]
  note missing = demand_and_competitive_in_range
    [where r = ?n and base_price = 30 and lambd = 2 and index = 0 and df = ?df
       and radius_km = 1]
  have f: "NormalizedOccupancyRate ?r \<noteq> NaN \<and> NormalizedQueueLength ?r \<noteq> NaN \<and>
    TrafficConditionEncoded ?r \<noteq> NaN \<and> VehicleTypeEncoded ?r \<noteq> NaN \<and> IsSpecialDay ?r \<noteq> NaN"
    by (simp add: feature_row_def)
  from number f have a: "\<exists>d p. demand_score ?r = Fin d \<and> 0 \<le> d \<and> d \<le> 1 \<and>
      demand_based_price ?r 30 2 = Fin p \<and> 5 \<le> p \<and> p \<le> 20"
    by blast
  have a': "demand_based_price ?r 30 2 = Fin 20"
    by (simp add: demand_based_price_def demand_score_def weighted_sum_def feature_row_def
        py_round_def Let_def to_double_eval round_half_even_def)
  have g: "VehicleTypeEncoded ?n = NaN" by (simp add: feature_row_def)
  from missing g have b: "demand_based_price ?n 30 2 = NaN" by blast
  have len: "0 < length ?df" by simp
  have caps: "\<forall>r \<in> set ?df. Capacity r \<noteq> 0" by (simp add: scenario_row_simps)
  have own: "DemandPrice (?df ! 0) = Fin (195 / 10)"
    by (simp add: scenario_row_simps to_double_eval round_half_even_def)
  have rng: "(5::real) \<le> 195 / 10 \<and> (195 / 10 :: real) \<le> 20" by simp
  from number len caps own rng
  have c: "\<exists>p. competitive_price 0 ?df 1 = Inr (Fin p) \<and> 5 \<le> p \<and> p \<le> 20"
    by blast
  have c': "competitive_price 0 ?df 1 = Inr (Fin 20)"
    by (simp add: competitive_price_def scenario_row_simps haversine_self truediv_def
        adjust_price_def np_mean_1 to_double_eval round_half_even_def)
  from caps have caps': "Capacity (scenario_row (195 / 10) 50 100 0 0) \<noteq> 0"
    "Capacity (scenario_row 20 95 100 0 0) \<noteq> 0" by simp_all
  from f a a' g b len caps' own c c' show ?thesis by (intro conjI) simp_all
qed



text \<open>
  Claim C6, the notebook against the claimed formula. For occupancy 3 and capacity 200
  the claimed value \<open>10 + 5 * (3 / 200)\<close> is 10.075, which rounded to two decimals is
  10.08. The notebook returns 10.07: the sum computed in double arithmetic lies below
  10.075.
\<close>

theorem linear_price_off_by_a_cent:
  "linear_pricing_model_default 3 200 = Inr (to_double (1007 / 100)) \<and>
   exact_linear_price 3 200 10 5 = 1008 / 100 \<and>
   to_double (1007 / 100) \<noteq> to_double (1008 / 100)"
  by (simp add: linear_pricing_model_default_def linear_pricing_model_Inr py_round_def
      exact_linear_price_def exact_round2_def to_double_eval round_half_even_def)

text \<open>
  Claim C6, amended. For every occupancy and every capacity above 0 the linear price is
  \<open>base_price + alpha * (occupancy / capacity)\<close> evaluated in double arithmetic, the
  quotient, the product and the sum each rounded to the nearest double, and then rounded
  to two decimals, half to even on the exact value of the double; the defaults are
  \<open>base_price = 10.0\<close> and \<open>alpha = 5.0\<close>, and the result is not clamped (occupancy 300 of
  capacity 100 is priced 25). Occupancy 50 of capacity 100 is priced 12.50, which is also
  the value of the exact formula; occupancy 1 of capacity 1000 is priced 10.01; occupancy
  1 of capacity 8 is priced 10.62 and, with \<open>alpha = 1\<close>, occupancy 3 of capacity 8 is
  priced 10.38, the halves 10.625 and 10.375 being doubles.
\<close>

theorem linear_price_matches_formula:
  "(0 < capacity \<longrightarrow>
      linear_pricing_model occupancy capacity base_price alpha =
        Inr (py_round (to_double (base_price +
               to_double (alpha * to_double (occupancy / capacity)))) 2) \<and>
      linear_pricing_model_default occupancy capacity =
        Inr (py_round (to_double (10 + to_double (5 * to_double (occupancy / capacity)))) 2)) \<and>
   linear_pricing_model_default 50 100 = Inr (1250 / 100) \<and>
   exact_linear_price 50 100 10 5 = 1250 / 100 \<and>
   linear_pricing_model_default 300 100 = Inr 25 \<and>
   linear_pricing_model_default 1 1000 = Inr (to_double (1001 / 100)) \<and>
   linear_pricing_model_default 1 8 = Inr (to_double (1062 / 100)) \<and>
   linear_pricing_model 3 8 10 1 = Inr (to_double (1038 / 100))"
proof (intro conjI impI)
  assume "0 < capacity"
  then show "linear_pricing_model occupancy capacity base_price alpha =
        Inr (py_round (to_double (base_price +
               to_double (alpha * to_double (occupancy / capacity)))) 2)"
    and "linear_pricing_model_default occupancy capacity =
        Inr (py_round (to_double (10 + to_double (5 * to_double (occupancy / capacity)))) 2)"
    by (simp_all add: linear_pricing_model_default_def linear_pricing_model_Inr)
qed (simp_all add: linear_pricing_model_default_def linear_pricing_model_Inr py_round_def
      exact_linear_price_def exact_round2_def to_double_eval round_half_even_def)

theorem linear_price_matches_formula_witness:
  "(0::real) < 200 \<and>
   linear_pricing_model 7 200 10 5 = Inr (to_double (1018 / 100)) \<and>
   linear_pricing_model_default 7 200 = Inr (to_double (1018 / 100))"
proof -
  have pos: "(0::real) < 200" by simp
  have e: "py_round (to_double (10 + to_double (5 * to_double (7 / 200)))) 2
      = to_double (1018 / 100)"
    by (simp add: py_round_def to_double_eval round_half_even_def)
  from linear_price_matches_formula [of 200 7 10 5] pos
  have a: "linear_pricing_model 7 200 10 5 =
      Inr (py_round (to_double (10 + to_double (5 * to_double (7 / 200)))) 2)"
    and b: "linear_pricing_model_default 7 200 =
      Inr (py_round (to_double (10 + to_double (5 * to_double (7 / 200)))) 2)"
    by blast+
  from pos a [unfolded e] b [unfolded e] show ?thesis by (intro conjI)
qed

text \<open>
  Claim C7. The linear pricing function raises \<open>ZeroDivisionError\<close> when the capacity is 0
  and returns a price for every capacity above 0.
\<close>

theorem linear_zero_capacity_raises:
  "linear_pricing_model occupancy 0 base_price alpha = Inl ZeroDivisionError \<and>
   (0 < capacity \<longrightarrow> (\<exists>p. linear_pricing_model occupancy capacity base_price alpha = Inr p))"
  by (simp add: linear_pricing_model_zero linear_pricing_model_Inr)

theorem linear_zero_capacity_raises_witness:
  "(0::real) < 100 \<and> linear_pricing_model 50 0 10 5 = Inl ZeroDivisionError \<and>
   (\<exists>p. linear_pricing_model 50 100 10 5 = Inr p)"
  using linear_zero_capacity_raises [of 50 10 5 100] by simp

text \<open>
  Claim C8, the notebook's behaviour at the stated input. A batch of five readings, one of
  them with occupancy 0 and capacity 0: the linear pricing pass raises
  \<open>ZeroDivisionError\<close> and yields no price for any of the five.
\<close>

theorem one_zero_capacity_stops_batch:
  "linear_price_column
     [scenario_reading 50 100 ''car'' ''low'', scenario_reading 30 100 ''bike'' ''high'',
      scenario_reading 0 0 ''car'' ''medium'', scenario_reading 20 100 ''truck'' ''low'',
      scenario_reading 10 100 ''car'' ''low'']
   = Inl ZeroDivisionError"
  by (simp add: scenario_reading_simps linear_pricing_model_default_def linear_pricing_model_Inr
      linear_pricing_model_zero)

text \<open>
  Claim C8, amended. The notebook rejects no reading. A reading with capacity 0 is not
  isolated: the linear pricing pass over the batch raises \<open>ZeroDivisionError\<close> and no
  lot is priced. When no reading has capacity 0, every reading of the batch is priced,
  also one with a negative capacity or an unrecognised vehicle type or traffic level. An
  unrecognised vehicle type or traffic level is encoded as NaN; no number is put in its
  place.
\<close>

theorem linear_pass_all_or_nothing:
  "((\<exists>r \<in> set batch. Capacity r = 0) \<longrightarrow> linear_price_column batch = Inl ZeroDivisionError) \<and>
   ((\<forall>r \<in> set batch. Capacity r \<noteq> 0) \<longrightarrow>
      linear_price_column batch =
        Inr (map (\<lambda>r. py_round (to_double (10 + to_double (5 * to_double
                         (of_int (Occupancy r) / of_int (Capacity r))))) 2) batch)) \<and>
   (vehicle_type_encoded v = NaN \<longleftrightarrow> v \<notin> {''car'', ''bike'', ''truck''}) \<and>
   (traffic_condition_encoded t = NaN \<longleftrightarrow> t \<notin> {''low'', ''medium'', ''high''})"
  using linear_price_column_Inl [of batch] linear_price_column_Inr [of batch]
    vehicle_type_encoded_NaN [of v] traffic_condition_encoded_NaN [of t]
  by blast

theorem linear_pass_all_or_nothing_witness:
  "Capacity (scenario_reading 0 0 ''car'' ''low'') = 0 \<and>
   linear_price_column [scenario_reading 50 100 ''car'' ''low'', scenario_reading 0 0 ''car'' ''low'']
     = Inl ZeroDivisionError \<and>
   Capacity (scenario_reading 50 100 ''car'' ''low'') \<noteq> 0 \<and>
   Capacity (scenario_reading 30 (- 100) ''cycle'' ''average'') \<noteq> 0 \<and>
   linear_price_column
     [scenario_reading 50 100 ''car'' ''low'', scenario_reading 30 (- 100) ''cycle'' ''average'']
     = Inr [125 / 10, 85 / 10] \<and>
   vehicle_type_encoded ''cycle'' = NaN \<and> traffic_condition_encoded ''average'' = NaN"
proof -
  let ?bad = "[scenario_reading 50 100 ''car'' ''low'', scenario_reading 0 0 ''car'' ''low'']"
  let ?ok = "[scenario_reading 50 100 ''car'' ''low'',
              scenario_reading 30 (- 100) ''cycle'' ''average'']"
  have bad: "\<exists>r \<in> set ?bad. Capacity r = 0" by (simp add: scenario_reading_simps)
  have ok: "\<forall>r \<in> set ?ok. Capacity r \<noteq> 0" by (simp add: scenario_reading_simps)
  have r1: "py_round (to_double (10 + to_double (5 * to_double (50 / 100)))) 2 = 125 / 10"
    by (simp add: py_round_def to_double_eval round_half_even_def)
  have r2: "py_round (to_double (10 + to_double (5 * to_double (30 / (- 100))))) 2 = 85 / 10"
    by (simp add: py_round_def to_double_eval round_half_even_def)
  from linear_pass_all_or_nothing [of ?bad "''cycle''" "''average''"] bad
  have a: "linear_price_column ?bad = Inl ZeroDivisionError" by blast
  from linear_pass_all_or_nothing [of ?ok "''cycle''" "''average''"] ok
  have b: "linear_price_column ?ok =
        Inr (map (\<lambda>r. py_round (to_double (10 + to_double (5 * to_double
                         (of_int (Occupancy r) / of_int (Capacity r))))) 2) ?ok)"
    and c: "vehicle_type_encoded ''cycle'' = NaN"
    and d: "traffic_condition_encoded ''average'' = NaN"
    by simp_all
  from b have b': "linear_price_column ?ok = Inr [125 / 10, 85 / 10]"
    using r1 r2 by (simp add: scenario_reading_simps)
  from a b' c d show ?thesis by (simp add: scenario_reading_simps)
qed

text \<open>
  Claim C9. The haversine distance is symmetric and the distance of a point to itself is
  0; the Earth radius is 6371 km (half a turn along the equator is \<open>6371 * pi\<close>). For a
  frame with non-zero capacities the neighbour loop selects exactly the rows other than
  the queried one whose distance to the query point is at most \<open>radius_km\<close>, in row
  order, each with its demand price and occupancy rate.
\<close>

theorem haversine_symmetric_and_selection:
  "haversine lat1 lon1 lat2 lon2 = haversine lat2 lon2 lat1 lon1 \<and>
   haversine lat1 lon1 lat1 lon1 = 0 \<and>
   haversine 0 0 0 180 = 6371 * pi \<and>
   ((\<forall>r \<in> set df. Capacity r \<noteq> 0) \<longrightarrow>
      neighbors_loop index lat1 lon1 radius_km (enumerate 0 df) [] =
        Inr (map (\<lambda>j. (DemandPrice (df ! j),
                        Fin (to_double (of_int (Occupancy (df ! j)) / of_int (Capacity (df ! j))))))
               (filter (\<lambda>j. j \<noteq> index \<and>
                          haversine lat1 lon1 (Latitude (df ! j)) (Longitude (df ! j)) \<le> radius_km)
                  [0..<length df])))"
proof (intro conjI impI)
  show "haversine lat1 lon1 lat2 lon2 = haversine lat2 lon2 lat1 lon1" by (rule haversine_sym)
  show "haversine lat1 lon1 lat1 lon1 = 0" by (rule haversine_self)
  show "haversine 0 0 0 180 = 6371 * pi" by (rule haversine_half_turn)
next
  assume "\<forall>r \<in> set df. Capacity r \<noteq> 0"
  then show "neighbors_loop index lat1 lon1 radius_km (enumerate 0 df) [] =
        Inr (map (\<lambda>j. (DemandPrice (df ! j),
                        Fin (to_double (of_int (Occupancy (df ! j)) / of_int (Capacity (df ! j))))))
               (filter (\<lambda>j. j \<noteq> index \<and>
                          haversine lat1 lon1 (Latitude (df ! j)) (Longitude (df ! j)) \<le> radius_km)
                  [0..<length df]))"
    by (rule neighbors_loop_nth)
qed

theorem haversine_symmetric_and_selection_witness:
  "Capacity (scenario_row 12 50 100 0 0) \<noteq> 0 \<and> Capacity (scenario_row 15 95 100 0 0) \<noteq> 0 \<and>
   Capacity (scenario_row 9 10 100 0 180) \<noteq> 0 \<and>
   neighbors_loop 0 0 0 1
     (enumerate 0 [scenario_row 12 50 100 0 0, scenario_row 15 95 100 0 0,
                   scenario_row 9 10 100 0 180]) []
   = Inr [(Fin 15, Fin (to_double (95 / 100)))]"
proof -
  let ?df = "[scenario_row 12 50 100 0 0, scenario_row 15 95 100 0 0, scenario_row 9 10 100 0 180]"
  have caps: "\<forall>r \<in> set ?df. Capacity r \<noteq> 0" by (simp add: scenario_row_simps)
  have up: "[0..<length ?df] = [0, Suc 0, Suc (Suc 0)]" by (simp add: upt_rec)
  from haversine_symmetric_and_selection [of 0 0 0 0 ?df 0 1] caps have
    "neighbors_loop 0 0 0 1 (enumerate 0 ?df) [] =
        Inr (map (\<lambda>j. (DemandPrice (?df ! j),
                        Fin (to_double (of_int (Occupancy (?df ! j)) / of_int (Capacity (?df ! j))))))
               (filter (\<lambda>j. j \<noteq> 0 \<and>
                          haversine 0 0 (Latitude (?df ! j)) (Longitude (?df ! j)) \<le> 1)
                  [0..<length ?df]))"
    by blast
  then have "neighbors_loop 0 0 0 1 (enumerate 0 ?df) [] = Inr [(Fin 15, Fin (to_double (95 / 100)))]"
    unfolding up using haversine_far
    by (simp add: scenario_row_simps haversine_self to_double_consts)
  then show ?thesis by (simp add: scenario_row_simps)
qed

text \<open>
  Claim C10, the notebook against the claimed range. The preprocessing turns a traffic
  level that is not a key of the encoding dict into NaN; with the default parameters the
  demand price of such a row is NaN, not a number of \<open>[10, 15]\<close>.
\<close>

theorem unknown_traffic_level_prices_nan:
  "map DemandPrice (assign_demand_price (assign_encodings
     [(feature_row (Fin (5 / 10)) (Fin (to_double (2 / 10))) (Fin 1) (Fin 1) (Fin 0))
        \<lparr>TrafficConditionNearby := ''jam''\<rparr>])) = [NaN] \<and>
   (\<nexists>p. demand_based_price_default
          (feature_row (Fin (5 / 10)) (Fin (to_double (2 / 10))) NaN (Fin 1) (Fin 0)) = Fin p \<and>
        10 \<le> p \<and> p \<le> 15)"
  by (simp add: assign_demand_price_def assign_encodings_def feature_row_def
      vehicle_type_encoded_def vehicle_type_dict_def traffic_condition_encoded_def
      traffic_condition_dict_def series_map_def
      demand_based_price_default_def demand_based_price_def demand_score_def
      weighted_sum_def Let_def)

text \<open>
  Claim C10, amended. With the default parameters the demand price of every row whose
  five features are numbers lies in \<open>[10, 15]\<close>. For every row the clamp to \<open>[5, 20]\<close>
  leaves \<open>10 * (1 + 0.5 * demand)\<close> unchanged. In a frame whose demand prices were
  assigned by the demand pass, the caps of the competitive adjustment do not bind:
  \<open>min(own_price + 1, 20)\<close> is \<open>own_price + 1\<close>, \<open>max(own_price - 1, 5)\<close> is
  \<open>own_price - 1\<close>, and the competitive price is the own demand price, that plus 1 or
  that minus 1.
\<close>

theorem default_caps_never_bind:
  "(NormalizedOccupancyRate r \<noteq> NaN \<and> NormalizedQueueLength r \<noteq> NaN \<and>
    TrafficConditionEncoded r \<noteq> NaN \<and> VehicleTypeEncoded r \<noteq> NaN \<and> IsSpecialDay r \<noteq> NaN
    \<longrightarrow> (\<exists>p. demand_based_price_default r = Fin p \<and> 10 \<le> p \<and> p \<le> 15)) \<and>
   (let unclamped = fmul (Fin 10) (fadd (Fin 1) (fmul (Fin (5 / 10)) (demand_score r)))
    in py_min (py_max unclamped (Fin 5)) (Fin 20) = unclamped) \<and>
   (index < length df \<and> (\<forall>r \<in> set df. Capacity r \<noteq> 0) \<longrightarrow>
      (let own_price = DemandPrice (assign_demand_price df ! index)
       in py_min (fadd own_price (Fin 1)) (Fin 20) = fadd own_price (Fin 1) \<and>
          py_max (fsub own_price (Fin 1)) (Fin 5) = fsub own_price (Fin 1) \<and>
          (\<exists>p. competitive_price index (assign_demand_price df) 1 = Inr p \<and>
               (p = own_price \<or> p = fadd own_price (Fin 1) \<or> p = fsub own_price (Fin 1)))))"
proof (intro conjI impI)
  assume "NormalizedOccupancyRate r \<noteq> NaN \<and> NormalizedQueueLength r \<noteq> NaN \<and>
    TrafficConditionEncoded r \<noteq> NaN \<and> VehicleTypeEncoded r \<noteq> NaN \<and> IsSpecialDay r \<noteq> NaN"
  then have "demand_score r \<noteq> NaN"
    by (simp add: demand_score_NaN_iff weighted_sum_NaN_iff)
  then obtain d where d: "demand_score r = Fin d" by (cases "demand_score r") simp_all
  from demand_based_price_default_range [OF d]
  show "\<exists>p. demand_based_price_default r = Fin p \<and> 10 \<le> p \<and> p \<le> 15" by blast
next
  show "let unclamped = fmul (Fin 10) (fadd (Fin 1) (fmul (Fin (5 / 10)) (demand_score r)))
    in py_min (py_max unclamped (Fin 5)) (Fin 20) = unclamped"
  proof (cases "demand_score r")
    case NaN
    then show ?thesis by simp
  next
    case (Fin d)
    from demand_score_range [OF Fin] default_unrounded_range [of d]
    have "10 \<le> to_double (10 * to_double (1 + to_double (5 / 10 * d)))"
      and "to_double (10 * to_double (1 + to_double (5 / 10 * d))) \<le> 15"
      by simp_all
    then have "min (max (to_double (10 * to_double (1 + to_double (5 / 10 * d)))) 5) 20 =
        to_double (10 * to_double (1 + to_double (5 / 10 * d)))"
      by simp
    then show ?thesis by (simp add: Fin Let_def)
  qed
next
  assume h: "index < length df \<and> (\<forall>r \<in> set df. Capacity r \<noteq> 0)"
  let ?df = "assign_demand_price df"
  let ?neighbors = "map (\<lambda>j. (DemandPrice (?df ! j),
           Fin (to_double (of_int (Occupancy (?df ! j)) / of_int (Capacity (?df ! j))))))
        (filter (\<lambda>j. j \<noteq> index \<and>
             haversine (Latitude (?df ! index)) (Longitude (?df ! index))
                       (Latitude (?df ! j)) (Longitude (?df ! j)) \<le> 1) [0..<length ?df])"
  have i': "index < length ?df" and caps': "\<forall>r \<in> set ?df. Capacity r \<noteq> 0"
    using h by (simp_all add: assign_demand_price_simps)
  have own: "DemandPrice (?df ! index) = demand_based_price_default (df ! index)"
    using h by (simp add: assign_demand_price_simps)
  have cp: "competitive_price index ?df 1 = Inr (adjust_price (DemandPrice (?df ! index)) ?neighbors)"
    by (rule competitive_price_adjust [OF i' caps'])
  show "let own_price = DemandPrice (?df ! index)
       in py_min (fadd own_price (Fin 1)) (Fin 20) = fadd own_price (Fin 1) \<and>
          py_max (fsub own_price (Fin 1)) (Fin 5) = fsub own_price (Fin 1) \<and>
          (\<exists>p. competitive_price index ?df 1 = Inr p \<and>
               (p = own_price \<or> p = fadd own_price (Fin 1) \<or> p = fsub own_price (Fin 1)))"
  proof (cases "demand_score (df ! index)")
    case NaN
    then have "DemandPrice (?df ! index) = NaN"
      by (simp add: own demand_based_price_default_def demand_based_price_NaN)
    with cp show ?thesis by (simp add: Let_def)
  next
    case (Fin d)
    from demand_based_price_default_range [OF Fin] obtain z where
      z: "10 \<le> z" "z \<le> 15" "demand_based_price_default (df ! index) = Fin (to_double z)"
        "10 \<le> to_double z" "to_double z \<le> 15"
      by blast
    have up: "to_double (to_double z + 1) = to_double z + 1"
      using z(1,2) by (intro to_double_plus_one_exact) simp_all
    have down: "to_double (to_double z - 1) = to_double z - 1"
      using z(1,2) by (intro to_double_minus_one_exact) simp_all
    from adjust_price_near [OF z(1,2), of ?neighbors] obtain p where
      p: "adjust_price (Fin (to_double z)) ?neighbors = Fin p"
        "p = to_double z \<or> p = to_double z + 1 \<or> p = to_double z - 1"
      by blast
    from z(4,5) have "min (to_double z + 1) 20 = to_double z + 1"
      and "max (to_double z - 1) 5 = to_double z - 1" by simp_all
    with cp p own z(3) up down show ?thesis by (auto simp: Let_def)
  qed
qed

theorem default_caps_never_bind_witness:
  "NormalizedOccupancyRate (feature_row (Fin 1) (Fin 1) (Fin 2) (Fin (15 / 10)) (Fin 1)) \<noteq> NaN \<and>
   NormalizedQueueLength (feature_row (Fin 1) (Fin 1) (Fin 2) (Fin (15 / 10)) (Fin 1)) \<noteq> NaN \<and>
   TrafficConditionEncoded (feature_row (Fin 1) (Fin 1) (Fin 2) (Fin (15 / 10)) (Fin 1)) \<noteq> NaN \<and>
   VehicleTypeEncoded (feature_row (Fin 1) (Fin 1) (Fin 2) (Fin (15 / 10)) (Fin 1)) \<noteq> NaN \<and>
   IsSpecialDay (feature_row (Fin 1) (Fin 1) (Fin 2) (Fin (15 / 10)) (Fin 1)) \<noteq> NaN \<and>
   (\<exists>p. demand_based_price_default (feature_row (Fin 1) (Fin 1) (Fin 2) (Fin (15 / 10)) (Fin 1))
          = Fin p \<and> 10 \<le> p \<and> p \<le> 15) \<and>
   Suc 0 < length [feature_row (Fin 0) (Fin 0) (Fin 0) (Fin 0) (Fin 0),
                   feature_row (Fin 1) (Fin 1) (Fin 2) (Fin (15 / 10)) (Fin 1)] \<and>
   Capacity (feature_row (Fin 0) (Fin 0) (Fin 0) (Fin 0) (Fin 0)) \<noteq> 0 \<and>
   Capacity (feature_row (Fin 1) (Fin 1) (Fin 2) (Fin (15 / 10)) (Fin 1)) \<noteq> 0 \<and>
   DemandPrice (assign_demand_price
       [feature_row (Fin 0) (Fin 0) (Fin 0) (Fin 0) (Fin 0),
        feature_row (Fin 1) (Fin 1) (Fin 2) (Fin (15 / 10)) (Fin 1)] ! Suc 0) = Fin 15 \<and>
   py_min (fadd (Fin 15) (Fin 1)) (Fin 20) = Fin 16 \<and>
   py_max (fsub (Fin 15) (Fin 1)) (Fin 5) = Fin 14 \<and>
   (\<exists>p. competitive_price (Suc 0) (assign_demand_price
           [feature_row (Fin 0) (Fin 0) (Fin 0) (Fin 0) (Fin 0),
            feature_row (Fin 1) (Fin 1) (Fin 2) (Fin (15 / 10)) (Fin 1)]) 1 = Inr p \<and>
        (p = Fin 15 \<or> p = Fin 16 \<or> p = Fin 14))"
proof -
  let ?a = "feature_row (Fin 0) (Fin 0) (Fin 0) (Fin 0) (Fin 0)"
  let ?b = "feature_row (Fin 1) (Fin 1) (Fin 2) (Fin (15 / 10)) (Fin 1)"
  note caps_thm = default_caps_never_bind [where r = ?b and index = "Suc 0" and df = "[?a, ?b]"]
  have f: "NormalizedOccupancyRate ?b \<noteq> NaN \<and> NormalizedQueueLength ?b \<noteq> NaN \<and>
    TrafficConditionEncoded ?b \<noteq> NaN \<and> VehicleTypeEncoded ?b \<noteq> NaN \<and> IsSpecialDay ?b \<noteq> NaN"
    by (simp add: feature_row_def)
  from caps_thm f have a: "\<exists>p. demand_based_price_default ?b = Fin p \<and> 10 \<le> p \<and> p \<le> 15"
    by blast
  have len: "Suc 0 < length [?a, ?b]" by simp
  have caps: "\<forall>r \<in> set [?a, ?b]. Capacity r \<noteq> 0" by (simp add: feature_row_def)
  have "demand_based_price_default ?b = Fin 15"
    by (simp add: demand_based_price_default_def demand_based_price_def demand_score_def
        weighted_sum_def feature_row_def py_round_def Let_def to_double_eval round_half_even_def)
  then have own: "DemandPrice (assign_demand_price [?a, ?b] ! Suc 0) = Fin 15"
    by (simp add: assign_demand_price_def)
  have s: "fadd (Fin 15) (Fin 1) = Fin 16" "fsub (Fin 15) (Fin 1) = Fin 14"
    by (simp_all add: to_double_eval round_half_even_def)
  from caps_thm len caps
  have "let own_price = DemandPrice (assign_demand_price [?a, ?b] ! Suc 0)
       in py_min (fadd own_price (Fin 1)) (Fin 20) = fadd own_price (Fin 1) \<and>
          py_max (fsub own_price (Fin 1)) (Fin 5) = fsub own_price (Fin 1) \<and>
          (\<exists>p. competitive_price (Suc 0) (assign_demand_price [?a, ?b]) 1 = Inr p \<and>
               (p = own_price \<or> p = fadd own_price (Fin 1) \<or> p = fsub own_price (Fin 1)))"
    by blast
  then have b: "py_min (fadd (Fin 15) (Fin 1)) (Fin 20) = Fin 16 \<and>
      py_max (fsub (Fin 15) (Fin 1)) (Fin 5) = Fin 14 \<and>
      (\<exists>p. competitive_price (Suc 0) (assign_demand_price [?a, ?b]) 1 = Inr p \<and>
           (p = Fin 15 \<or> p = Fin 16 \<or> p = Fin 14))"
    unfolding Let_def own s .
  from caps have c: "Capacity ?a \<noteq> 0" "Capacity ?b \<noteq> 0" by simp_all
  from f a len c own b show ?thesis by (intro conjI) simp_all
qed

end
